theory Spec2Isabelle
  imports Complex_Main "HOL-Library.Sublist"
begin

section \<open>Per-host trainer of init2winit: shallow embedding\<close>

text \<open>
  The definitions follow \<^verbatim>\<open>trainer_lib/trainer_per_host.py\<close> and
  \<^verbatim>\<open>training_metrics_grabber.py\<close>. Floating-point numbers are modelled by the
  reals (rounding is not modelled), Python exceptions by values of the type \<open>error\<close>,
  and the collaborators that live outside these two files (jax collectives, the model,
  the optimizer, the checkpoint library) are parameters of the functions that call them.
\<close>

subsection \<open>Errors, arrays and trees\<close>

text \<open>
  The exceptions the modelled code raises. \<^verbatim>\<open>utils.TrainingDivergedError\<close> carries
  the key of the metric that was NaN.
\<close>

datatype error =
    ValueError string
  | KeyError string
  | AttributeError string
  | NameError string
  | ZeroDivisionError
  | TypeError string
  | TrainingDivergedError string

text \<open>
  An array is modelled flattened, as the list of its entries. A pytree is modelled by its
  leaves in flattening order, each with its path: \<^verbatim>\<open>jax.tree_flatten\<close> returns the
  leaves (\<open>tree_leaves\<close>) and the tree definition (\<open>treedef\<close>).
\<close>

type_synonym array = "real list"

type_synonym 'a pytree = "(string \<times> 'a) list"

definition tree_leaves :: "'a pytree \<Rightarrow> 'a list" where
  "tree_leaves t = map snd t"

definition treedef :: "'a pytree \<Rightarrow> string list" where
  "treedef t = map fst t"

definition tree_map :: "('a \<Rightarrow> 'b) \<Rightarrow> 'a pytree \<Rightarrow> 'b pytree" where
  "tree_map f t = map (\<lambda>(k, x). (k, f x)) t"

subsection \<open>Collective groups\<close>

text \<open>
  \<^verbatim>\<open>_get_axis_index_groups\<close>: \<open>num_d\<close> is \<^verbatim>\<open>jax.local_device_count()\<close> and
  \<open>num_p\<close> is \<^verbatim>\<open>jax.process_count()\<close>;
  \<^verbatim>\<open>[list(range(i * num_d, i * num_d + num_d)) for i in range(num_p)]\<close>.
\<close>

definition get_axis_index_groups :: "nat \<Rightarrow> nat \<Rightarrow> nat list list" where
  "get_axis_index_groups num_d num_p =
     map (\<lambda>i. [i * num_d ..< i * num_d + num_d]) [0 ..< num_p]"

subsection \<open>Learning-rate injection\<close>

text \<open>
  The optimizer states \<^verbatim>\<open>_inject_learning_rate\<close> tells apart with \<^verbatim>\<open>isinstance\<close>:
  \<^verbatim>\<open>optax.InjectHyperparamsState\<close> (count, hyperparams, inner_state),
  \<^verbatim>\<open>gradient_accumulator.GradientAccumulatorState\<close>, of which only the wrapped
  \<^verbatim>\<open>base_state\<close> is read here, and every other state.
\<close>

datatype 'i opt_state =
    InjectHyperparamsState nat "string \<rightharpoonup> real" 'i
  | GradientAccumulatorState "'i opt_state"
  | OtherState

text \<open>
  The Python function mutates the state in place and may raise. The model returns the
  state as it is when the call ends, together with the exception raised, if any.
\<close>

fun inject_learning_rate :: "'i opt_state \<Rightarrow> real \<Rightarrow> 'i opt_state \<times> error option" where
  "inject_learning_rate (InjectHyperparamsState c h i) lr =
     (if h ''learning_rate'' \<noteq> None
      then (InjectHyperparamsState c (h(''learning_rate'' \<mapsto> lr)) i, None)
      else (InjectHyperparamsState c h i, None))"
| "inject_learning_rate (GradientAccumulatorState b) lr =
     (case inject_learning_rate b lr of (b', e) \<Rightarrow> (GradientAccumulatorState b', e))"
| "inject_learning_rate OtherState lr =
     (OtherState,
      Some (ValueError ''Unsupported optimizer_state type given when trying to inject the learning rate''))"

text \<open>
  Reading the learning-rate slot of a state: the \<^verbatim>\<open>hyperparams['learning_rate']\<close> of
  an \<^verbatim>\<open>InjectHyperparamsState\<close>, looked up through gradient-accumulation wrappers.
\<close>

fun learning_rate_slot :: "'i opt_state \<Rightarrow> real option" where
  "learning_rate_slot (InjectHyperparamsState c h i) = h ''learning_rate''"
| "learning_rate_slot (GradientAccumulatorState b) = learning_rate_slot b"
| "learning_rate_slot OtherState = None"

subsection \<open>The training step\<close>

definition GRAD_CLIP_EPS :: real where
  "GRAD_CLIP_EPS = 1 / 1000000"

text \<open>
  Modelled from the spec: \<^verbatim>\<open>model_utils.l2_regularization\<close> is not among the sources.
  Called as \<^verbatim>\<open>l2_regularization(grad, 0)\<close> it is the squared L2 norm of the whole
  tree, "treating it as one flattened vector": the sum of the squares of all entries of
  all leaves.
\<close>

definition l2_regularization :: "array pytree \<Rightarrow> real" where
  "l2_regularization t = sum_list (map (\<lambda>x. sum_list (map (\<lambda>v. v\<^sup>2) x)) (tree_leaves t))"

text \<open>
  Lines 297 to 301 of \<^verbatim>\<open>update\<close>: \<^verbatim>\<open>if grad_clip:\<close> is false for \<^verbatim>\<open>None\<close> and
  for \<open>0\<close>; \<^verbatim>\<open>jax.lax.cond\<close> selects the rescaled tree when
  \<^verbatim>\<open>grad_norm > grad_clip\<close>.
\<close>

definition clip_grad :: "real option \<Rightarrow> real \<Rightarrow> array pytree \<Rightarrow> array pytree" where
  "clip_grad grad_clip grad_norm grad =
     (case grad_clip of
        None \<Rightarrow> grad
      | Some c \<Rightarrow>
          if c = 0 then grad
          else
            let scaled_grad = tree_map (map (\<lambda>x. x / (grad_norm + GRAD_CLIP_EPS) * c)) grad
            in if grad_norm > c then scaled_grad else grad)"

text \<open>
  Lines 303 to 305: \<^verbatim>\<open>if 'train_loss' in optimizer_state.hyperparams\<close>. The
  \<^verbatim>\<open>hyperparams\<close> of a gradient-accumulation wrapper are those of its base state; a
  state without the attribute raises (\<^verbatim>\<open>update\<close> never gets there: the learning-rate
  injection has raised before).
\<close>

fun inject_train_loss :: "'i opt_state \<Rightarrow> real \<Rightarrow> 'i opt_state \<times> error option" where
  "inject_train_loss (InjectHyperparamsState c h i) cost =
     (if h ''train_loss'' \<noteq> None
      then (InjectHyperparamsState c (h(''train_loss'' \<mapsto> cost)) i, None)
      else (InjectHyperparamsState c h i, None))"
| "inject_train_loss (GradientAccumulatorState b) cost =
     (case inject_train_loss b cost of (b', e) \<Rightarrow> (GradientAccumulatorState b', e))"
| "inject_train_loss OtherState cost = (OtherState, Some (AttributeError ''hyperparams''))"

text \<open>
  \<^verbatim>\<open>optax.apply_updates\<close>: the leafwise sum of two trees of the same structure and
  shapes; a mismatch raises.
\<close>

definition apply_updates :: "array pytree \<Rightarrow> array pytree \<Rightarrow> error + array pytree" where
  "apply_updates params updates =
     (if treedef params \<noteq> treedef updates then Inl (ValueError ''tree structure mismatch'')
      else if \<not> list_all2 (\<lambda>p u. length p = length u) (tree_leaves params) (tree_leaves updates)
      then Inl (TypeError ''incompatible shapes'')
      else Inr (map2 (\<lambda>(k, p) (k', u). (k, map2 (+) p u)) params updates))"

text \<open>
  The tuple \<^verbatim>\<open>update\<close> returns: the new optimizer state, the new params, the new
  batch stats, the cost, the new metrics state and the gradient norm.
\<close>

record ('i, 'bs, 'm) update_result =
  res_optimizer_state :: "'i opt_state"
  res_params :: "array pytree"
  res_batch_stats :: "'bs option"
  res_cost_value :: real
  res_metrics_state :: "'m option"
  res_grad_norm :: real

text \<open>
  \<^verbatim>\<open>update\<close>, one step of the training loop on one device. Before the arguments of the
  source come the collaborators: \<open>fold_in\<close> is \<^verbatim>\<open>jax.random.fold_in\<close>, \<open>pmean\<close> is
  \<^verbatim>\<open>lax.pmean\<close> over the axis \<^verbatim>\<open>'batch'\<close> as seen from this device, given the
  \<^verbatim>\<open>axis_index_groups\<close>, and \<open>num_d\<close>, \<open>num_p\<close> are the local device count and the
  process count. \<open>training_cost\<close> stands for \<^verbatim>\<open>jax.value_and_grad(opt_cost, has_aux=True)\<close>
  with \<^verbatim>\<open>.get('batch_stats', None)\<close> applied to the auxiliary output.
\<close>

definition update ::
  "('r \<Rightarrow> nat \<Rightarrow> 'r) \<Rightarrow> (nat list list \<Rightarrow> real \<times> array pytree \<Rightarrow> real \<times> array pytree) \<Rightarrow>
   nat \<Rightarrow> nat \<Rightarrow>
   'i opt_state \<Rightarrow> array pytree \<Rightarrow> 'bs \<Rightarrow> 'm option \<Rightarrow> 'b \<Rightarrow> nat \<Rightarrow> real \<Rightarrow> 'r \<Rightarrow> nat \<Rightarrow>
   (array pytree \<Rightarrow> 'b \<Rightarrow> 'bs \<Rightarrow> 'r \<Rightarrow> (real \<times> 'bs option) \<times> array pytree) \<Rightarrow>
   real option \<Rightarrow>
   (array pytree \<Rightarrow> 'i opt_state \<Rightarrow> array pytree \<Rightarrow> 'b \<Rightarrow> 'bs option \<Rightarrow> array pytree \<times> 'i opt_state) \<Rightarrow>
   ('m \<Rightarrow> array pytree \<Rightarrow> array pytree \<Rightarrow> array pytree \<Rightarrow> 'm) \<Rightarrow>
   error + ('i, 'bs, 'm) update_result" where
  "update fold_in pmean num_d num_p
     optimizer_state params batch_stats metrics_state batch step lr rng local_device_index
     training_cost grad_clip optimizer_update_fn metrics_update_fn =
     (let rng1 = fold_in rng step;
          rng2 = fold_in rng1 local_device_index
      in case inject_learning_rate optimizer_state lr of
           (s, Some e) \<Rightarrow> Inl e
         | (optimizer_state1, None) \<Rightarrow>
             (let vg = training_cost params batch batch_stats rng2;
                  new_batch_stats = snd (fst vg);
                  avg = pmean (get_axis_index_groups num_d num_p) (fst (fst vg), snd vg);
                  cost_value = fst avg;
                  grad = snd avg;
                  grad_norm = sqrt (l2_regularization grad);
                  grad = clip_grad grad_clip grad_norm grad
              in case inject_train_loss optimizer_state1 cost_value of
                   (s, Some e) \<Rightarrow> Inl e
                 | (optimizer_state2, None) \<Rightarrow>
                     (let ou = optimizer_update_fn grad optimizer_state2 params batch new_batch_stats;
                          model_updates = fst ou;
                          new_optimizer_state = snd ou
                      in case apply_updates params model_updates of
                           Inl e \<Rightarrow> Inl e
                         | Inr new_params \<Rightarrow>
                             Inr \<lparr> res_optimizer_state = new_optimizer_state,
                                   res_params = new_params,
                                   res_batch_stats = new_batch_stats,
                                   res_cost_value = cost_value,
                                   res_metrics_state =
                                     (case metrics_state of
                                        None \<Rightarrow> None
                                      | Some ms \<Rightarrow> Some (metrics_update_fn ms grad params new_params)),
                                   res_grad_norm = grad_norm \<rparr>)))"

text \<open>
  A concrete step for exercising the properties below: one device, a parameter tree with
  the single leaf \<open>w = [1]\<close>, a training cost whose value is \<open>1\<close> and whose gradient is
  \<open>w = [2]\<close> (so the gradient norm is \<open>2\<close>), an optimizer that returns the gradient it is
  given as the update, and a metrics update that returns the gradient it is given.
\<close>

definition example_step :: "real option \<Rightarrow> error + (unit, unit, array pytree) update_result" where
  "example_step grad_clip =
     update (\<lambda>r n. r) (\<lambda>groups x. x) 1 1
       (InjectHyperparamsState 0 [''learning_rate'' \<mapsto> 0] ()) [(''w'', [1])] ()
       (Some [(''w'', [0])]) () 0 (1 / 10) (0::nat) 0
       (\<lambda>p b bs r. ((1, None), [(''w'', [2])])) grad_clip
       (\<lambda>g st p b bs. (g, st)) (\<lambda>ms g p np. g)"

subsection \<open>The training metrics grabber\<close>

text \<open>
  \<^verbatim>\<open>_MetricsLeafState\<close>: the statistics kept for one leaf of the parameter tree.
\<close>

record MetricsLeafState =
  grad_ema :: array
  grad_sq_ema :: array
  param_norm :: real
  update_ema :: array
  update_sq_ema :: array

type_synonym config = "string \<rightharpoonup> real"

text \<open>
  Array arithmetic: a scalar times an array, the elementwise sum and difference of two
  arrays, \<^verbatim>\<open>jnp.square\<close>, \<^verbatim>\<open>jnp.zeros_like\<close> and the norm of the flattened array.
  Arrays combined elementwise have the same shape; the functions that combine them check
  it and return the \<open>TypeError\<close> of incompatible shapes otherwise (broadcasting between
  different shapes is not modelled).
\<close>

definition arr_scale :: "real \<Rightarrow> array \<Rightarrow> array" where
  "arr_scale c x = map (\<lambda>v. c * v) x"

definition arr_add :: "array \<Rightarrow> array \<Rightarrow> array" where
  "arr_add x y = map2 (+) x y"

definition arr_sub :: "array \<Rightarrow> array \<Rightarrow> array" where
  "arr_sub x y = map2 (-) x y"

definition square :: "array \<Rightarrow> array" where
  "square x = map (\<lambda>v. v * v) x"

definition zeros_like :: "array \<Rightarrow> array" where
  "zeros_like x = map (\<lambda>v. 0) x"

definition linalg_norm :: "array \<Rightarrow> real" where
  "linalg_norm x = sqrt (sum_list (map (\<lambda>v. v\<^sup>2) x))"

text \<open>\<^verbatim>\<open>_update_param_stats\<close>; \<open>upd\<close> is the argument \<^verbatim>\<open>update\<close> of the source.\<close>

definition update_param_stats ::
  "MetricsLeafState \<Rightarrow> array \<Rightarrow> array \<Rightarrow> array \<Rightarrow> config \<Rightarrow> error + MetricsLeafState" where
  "update_param_stats leaf_state param_gradient upd new_param config =
     (case config ''ema_beta'' of
        None \<Rightarrow> Inl (KeyError ''ema_beta'')
      | Some ema_beta \<Rightarrow>
          if length (grad_sq_ema leaf_state) \<noteq> length param_gradient
             \<or> length (grad_ema leaf_state) \<noteq> length param_gradient
             \<or> length (update_ema leaf_state) \<noteq> length upd
             \<or> length (update_sq_ema leaf_state) \<noteq> length upd
          then Inl (TypeError ''incompatible shapes'')
          else
            let param_grad_sq = square param_gradient;
                grad_sq_ema' = arr_add (arr_scale ema_beta (grad_sq_ema leaf_state))
                                       (arr_scale (1 - ema_beta) param_grad_sq);
                grad_ema' = arr_add (arr_scale ema_beta (grad_ema leaf_state))
                                    (arr_scale (1 - ema_beta) param_gradient);
                update_sq = square upd;
                update_ema' = arr_add (arr_scale ema_beta (update_ema leaf_state))
                                      (arr_scale (1 - ema_beta) upd);
                update_sq_ema' = arr_add (arr_scale ema_beta (update_sq_ema leaf_state))
                                         (arr_scale (1 - ema_beta) update_sq);
                param_norm' = linalg_norm new_param
            in Inr \<lparr> grad_ema = grad_ema',
                     grad_sq_ema = grad_sq_ema',
                     param_norm = param_norm',
                     update_ema = update_ema',
                     update_sq_ema = update_sq_ema' \<rparr>)"

definition validate_config :: "config \<Rightarrow> error option" where
  "validate_config config =
     (if config ''ema_beta'' = None then Some (ValueError ''Eval config requires field ema_beta'')
      else None)"

text \<open>\<^verbatim>\<open>TrainingMetricsGrabber\<close>, with its fields \<^verbatim>\<open>state\<close> and \<^verbatim>\<open>config\<close>.\<close>

record TrainingMetricsGrabber =
  grabber_state :: "MetricsLeafState pytree"
  grabber_config :: config

definition node_init :: "array \<Rightarrow> MetricsLeafState" where
  "node_init x =
     \<lparr> grad_ema = zeros_like x,
       grad_sq_ema = zeros_like x,
       param_norm = 0,
       update_ema = zeros_like x,
       update_sq_ema = zeros_like x \<rparr>"

definition create :: "array pytree \<Rightarrow> config \<Rightarrow> error + TrainingMetricsGrabber" where
  "create model_params config =
     (case validate_config config of
        Some e \<Rightarrow> Inl e
      | None \<Rightarrow>
          let gradient_statistics = tree_map node_init model_params
          in Inr \<lparr> grabber_state = gradient_statistics, grabber_config = config \<rparr>)"

text \<open>
  \<^verbatim>\<open>treedef.flatten_up_to\<close> and \<^verbatim>\<open>jax.tree_unflatten\<close> raise when the tree, or the
  number of leaves, does not fit the tree definition.
\<close>

definition flatten_up_to :: "string list \<Rightarrow> 'a pytree \<Rightarrow> error + 'a list" where
  "flatten_up_to td t =
     (if treedef t = td then Inr (tree_leaves t) else Inl (ValueError ''tree structure mismatch''))"

definition tree_unflatten :: "string list \<Rightarrow> 'a list \<Rightarrow> error + 'a pytree" where
  "tree_unflatten td leaves =
     (if length leaves = length td then Inr (zip td leaves)
      else Inl (ValueError ''wrong number of leaves''))"

text \<open>A list comprehension whose elements may raise: the first exception ends it.\<close>

fun collect :: "(error + 'a) list \<Rightarrow> error + 'a list" where
  "collect [] = Inr []"
| "collect (Inl e # rs) = Inl e"
| "collect (Inr x # rs) = (case collect rs of Inl e \<Rightarrow> Inl e | Inr xs \<Rightarrow> Inr (x # xs))"

text \<open>
  \<^verbatim>\<open>TrainingMetricsGrabber.update\<close>. The four flat lists are zipped, so the comprehension
  stops at the shortest; \<^verbatim>\<open>new_param - old_param\<close> is evaluated before
  \<^verbatim>\<open>_update_param_stats\<close> is called.
\<close>

definition grabber_update ::
  "TrainingMetricsGrabber \<Rightarrow> array pytree \<Rightarrow> array pytree \<Rightarrow> array pytree
   \<Rightarrow> error + TrainingMetricsGrabber" where
  "grabber_update self model_gradient old_params new_params =
     (let grads_flat = tree_leaves model_gradient;
          td = treedef model_gradient;
          new_params_flat = tree_leaves new_params;
          old_params_flat = tree_leaves old_params
      in case flatten_up_to td (grabber_state self) of
           Inl e \<Rightarrow> Inl e
         | Inr state_flat \<Rightarrow>
             (case collect
                     (map (\<lambda>(leaf_state, grad, old_param, new_param).
                             if length new_param \<noteq> length old_param
                             then Inl (TypeError ''incompatible shapes'')
                             else update_param_stats leaf_state grad
                                    (arr_sub new_param old_param) new_param (grabber_config self))
                        (zip state_flat (zip grads_flat (zip old_params_flat new_params_flat)))) of
                Inl e \<Rightarrow> Inl e
              | Inr new_states_flat \<Rightarrow>
                  (case tree_unflatten td new_states_flat of
                     Inl e \<Rightarrow> Inl e
                   | Inr t \<Rightarrow> Inr (self\<lparr>grabber_state := t\<rparr>))))"

text \<open>
  Applying \<^verbatim>\<open>update\<close> once per step, in order, as the training loop and the unit test do:
  each step is the triple of the gradient, the old params and the new params.
\<close>

fun run_updates ::
  "TrainingMetricsGrabber \<Rightarrow> (array pytree \<times> array pytree \<times> array pytree) list
   \<Rightarrow> error + TrainingMetricsGrabber" where
  "run_updates g [] = Inr g"
| "run_updates g ((grad, old_params, new_params) # steps) =
     (case grabber_update g grad old_params new_params of
        Inl e \<Rightarrow> Inl e
      | Inr g' \<Rightarrow> run_updates g' steps)"

text \<open>
  Two trees are isomorphic when they have the same tree definition and, leaf by leaf, the
  same shape.
\<close>

definition same_shape :: "array pytree \<Rightarrow> array pytree \<Rightarrow> bool" where
  "same_shape p q \<longleftrightarrow>
     treedef p = treedef q
     \<and> list_all2 (\<lambda>x y. length x = length y) (tree_leaves p) (tree_leaves q)"

text \<open>
  What the specification says of one update of one leaf: with \<open>upd = new - old\<close>, the
  four moving averages follow \<open>ema' = beta * ema + (1 - beta) * value\<close> for the gradient,
  the squared gradient, the update and the squared update, and \<open>param_norm\<close> is the
  Euclidean norm of the flattened new parameter.
\<close>

definition spec_leaf_update ::
  "real \<Rightarrow> MetricsLeafState \<Rightarrow> array \<Rightarrow> array \<Rightarrow> array \<Rightarrow> MetricsLeafState" where
  "spec_leaf_update \<beta> s gr old new =
     \<lparr> grad_ema = arr_add (arr_scale \<beta> (grad_ema s)) (arr_scale (1 - \<beta>) gr),
       grad_sq_ema = arr_add (arr_scale \<beta> (grad_sq_ema s)) (arr_scale (1 - \<beta>) (square gr)),
       param_norm = linalg_norm new,
       update_ema = arr_add (arr_scale \<beta> (update_ema s)) (arr_scale (1 - \<beta>) (arr_sub new old)),
       update_sq_ema = arr_add (arr_scale \<beta> (update_sq_ema s))
                         (arr_scale (1 - \<beta>) (square (arr_sub new old))) \<rparr>"

text \<open>
  The closed form of the specification, for entry \<open>j\<close> of leaf \<open>k\<close> after the gradients
  \<open>grads\<close> (in the order applied):
  \<open>(1 - beta) * sum_{i < N} beta^i * grad_{N-1-i}\<close>.
\<close>

definition closed_form_ema :: "real \<Rightarrow> array pytree list \<Rightarrow> nat \<Rightarrow> nat \<Rightarrow> real" where
  "closed_form_ema \<beta> grads k j =
     (1 - \<beta>) * (\<Sum>i<length grads. \<beta> ^ i * snd (grads ! (length grads - 1 - i) ! k) ! j)"

text \<open>A leaf state whose four arrays have \<open>n\<close> entries.\<close>

definition leaf_shaped :: "nat \<Rightarrow> MetricsLeafState \<Rightarrow> bool" where
  "leaf_shaped n s \<longleftrightarrow>
     length (grad_ema s) = n \<and> length (grad_sq_ema s) = n
     \<and> length (update_ema s) = n \<and> length (update_sq_ema s) = n"

text \<open>
  The gradients of the unit test \<^verbatim>\<open>test_grad_var\<close>, with a model size of \<open>2\<close>, and its
  steps: every gradient is applied with \<^verbatim>\<open>example_grads[0]\<close> as the old and as the new
  params.
\<close>

definition example_grads :: "array pytree list" where
  "example_grads =
     [[(''layer1'', [1, 1]), (''layer2'', [3, 3])],
      [(''layer1'', [2, 2]), (''layer2'', [1, 1])]]"

definition example_steps :: "(array pytree \<times> array pytree \<times> array pytree) list" where
  "example_steps = map (\<lambda>grad. (grad, example_grads ! 0, example_grads ! 0)) example_grads"

subsection \<open>Evaluation\<close>

text \<open>
  The scalars \<^verbatim>\<open>compute()\<close> returns are floating-point numbers, which may be NaN or
  infinite; \<^verbatim>\<open>np.isnan\<close> tells NaN apart.
\<close>

datatype pyfloat = Finite real | PosInf | NegInf | NaN

definition np_isnan :: "pyfloat \<Rightarrow> bool" where
  "np_isnan v \<longleftrightarrow> v = NaN"

text \<open>
  The loop of \<^verbatim>\<open>evaluate\<close> (lines 184 to 199) over the batches of the iterator:
  \<open>shard\<close> is \<^verbatim>\<open>data_utils.shard\<close>, \<open>evaluate_batch_pmapped\<close> returns the unreplicated
  metrics collection of one batch and \<open>merge\<close> is the \<^verbatim>\<open>merge\<close> of the collection. The
  result is \<open>None\<close> when the iterator yields no batch.
\<close>

definition merged_metrics ::
  "('b \<Rightarrow> 'b) \<Rightarrow> ('m \<Rightarrow> 'm \<Rightarrow> 'm) \<Rightarrow> 'p \<Rightarrow> 'bs \<Rightarrow> 'b list \<Rightarrow> ('p \<Rightarrow> 'bs \<Rightarrow> 'b \<Rightarrow> 'm) \<Rightarrow> 'm option" where
  "merged_metrics shard merge params batch_stats batch_iter evaluate_batch_pmapped =
     foldl (\<lambda>metrics batch.
              let batch = shard batch;
                  computed_metrics = evaluate_batch_pmapped params batch_stats batch
              in case metrics of
                   None \<Rightarrow> Some computed_metrics
                 | Some m \<Rightarrow> Some (merge m computed_metrics))
       None batch_iter"

text \<open>
  \<^verbatim>\<open>evaluate\<close>: \<open>compute\<close> is the \<^verbatim>\<open>compute\<close> of the collection, returning the items
  of the dictionary of scalars in their order. The first NaN found raises.
\<close>

definition evaluate ::
  "('b \<Rightarrow> 'b) \<Rightarrow> ('m \<Rightarrow> 'm \<Rightarrow> 'm) \<Rightarrow> ('m \<Rightarrow> (string \<times> pyfloat) list) \<Rightarrow>
   'p \<Rightarrow> 'bs \<Rightarrow> 'b list \<Rightarrow> ('p \<Rightarrow> 'bs \<Rightarrow> 'b \<Rightarrow> 'm) \<Rightarrow> error + (string \<times> pyfloat) list option" where
  "evaluate shard merge compute params batch_stats batch_iter evaluate_batch_pmapped =
     (case merged_metrics shard merge params batch_stats batch_iter evaluate_batch_pmapped of
        None \<Rightarrow> Inr None
      | Some m \<Rightarrow>
          let metrics = compute m
          in case find (\<lambda>(key, val). np_isnan val) metrics of
               Some (key, val) \<Rightarrow> Inl (TrainingDivergedError (''NaN detected in '' @ key))
             | None \<Rightarrow> Inr (Some metrics))"

text \<open>
  \<^verbatim>\<open>_merge_and_apply_prefix\<close>: \<open>d1\<close> is a dictionary, \<open>d2\<close> the items of a dictionary;
  for every key of \<open>d2\<close>, \<^verbatim>\<open>d1[prefix+key] = d2[key]\<close>.
\<close>

definition merge_and_apply_prefix ::
  "(string \<rightharpoonup> 'v) \<Rightarrow> (string \<times> 'v) list \<Rightarrow> string \<Rightarrow> (string \<rightharpoonup> 'v)" where
  "merge_and_apply_prefix d1 d2 pre =
     foldl (\<lambda>d key. d(pre @ key := map_of d2 key)) d1 (map fst d2)"

text \<open>The three epoch functions of the dataset that \<^verbatim>\<open>eval_metrics\<close> calls.\<close>

record 'b dataset =
  eval_train_epoch :: "nat option \<Rightarrow> 'b list"
  valid_epoch :: "nat option \<Rightarrow> 'b list"
  test_epoch :: "nat option \<Rightarrow> 'b list"

text \<open>The loop of \<^verbatim>\<open>eval_metrics\<close> over the splits; an exception of \<^verbatim>\<open>evaluate\<close> ends it.\<close>

fun eval_splits ::
  "('b \<Rightarrow> 'b) \<Rightarrow> ('m \<Rightarrow> 'm \<Rightarrow> 'm) \<Rightarrow> ('m \<Rightarrow> (string \<times> pyfloat) list) \<Rightarrow>
   'p \<Rightarrow> 'bs \<Rightarrow> ('p \<Rightarrow> 'bs \<Rightarrow> 'b \<Rightarrow> 'm) \<Rightarrow>
   (string \<rightharpoonup> pyfloat) \<Rightarrow> ('b list \<times> string) list \<Rightarrow> error + (string \<rightharpoonup> pyfloat)" where
  "eval_splits shard merge compute params batch_stats evaluate_batch_pmapped metrics [] = Inr metrics"
| "eval_splits shard merge compute params batch_stats evaluate_batch_pmapped metrics
     ((split_iter, split_name) # rest) =
     (case evaluate shard merge compute params batch_stats split_iter evaluate_batch_pmapped of
        Inl e \<Rightarrow> Inl e
      | Inr split_metrics \<Rightarrow>
          eval_splits shard merge compute params batch_stats evaluate_batch_pmapped
            (case split_metrics of
               None \<Rightarrow> metrics
             | Some sm \<Rightarrow> merge_and_apply_prefix metrics sm (split_name @ ''/''))
            rest)"

text \<open>\<^verbatim>\<open>eval_metrics\<close>, without the timing that the decorator \<^verbatim>\<open>utils.timed\<close> adds.\<close>

definition eval_metrics ::
  "('b \<Rightarrow> 'b) \<Rightarrow> ('m \<Rightarrow> 'm \<Rightarrow> 'm) \<Rightarrow> ('m \<Rightarrow> (string \<times> pyfloat) list) \<Rightarrow>
   'p \<Rightarrow> 'bs \<Rightarrow> 'b dataset \<Rightarrow> nat option \<Rightarrow> nat option \<Rightarrow> ('p \<Rightarrow> 'bs \<Rightarrow> 'b \<Rightarrow> 'm) \<Rightarrow>
   error + (string \<rightharpoonup> pyfloat)" where
  "eval_metrics shard merge compute params batch_stats dataset eval_num_batches
     eval_train_num_batches evaluate_batch_pmapped =
     (let train_iter = eval_train_epoch dataset eval_train_num_batches;
          valid_iter = valid_epoch dataset eval_num_batches;
          test_iter = test_epoch dataset eval_num_batches
      in eval_splits shard merge compute params batch_stats evaluate_batch_pmapped Map.empty
           [(train_iter, ''train''), (valid_iter, ''valid''), (test_iter, ''test'')])"

text \<open>
  What one split contributes to the report, in the words of the specification: nothing
  when the split has no metrics, and otherwise its metrics under the keys prefixed with
  the name of the split and a slash.
\<close>

definition split_report :: "string \<Rightarrow> (string \<times> 'v) list option \<Rightarrow> (string \<rightharpoonup> 'v)" where
  "split_report pre split_metrics =
     (case split_metrics of
        None \<Rightarrow> Map.empty
      | Some sm \<Rightarrow> (\<lambda>x. if prefix pre x then map_of sm (drop (length pre) x) else None))"

subsection \<open>Gathering the reports of all hosts\<close>

text \<open>
  The decimal numeral of a natural number, as the f-string \<^verbatim>\<open>f'{metric}-{i}'\<close> formats
  the host index.
\<close>

definition digit_char :: "nat \<Rightarrow> char" where
  "digit_char d = ''0123456789'' ! d"

function string_of_nat :: "nat \<Rightarrow> string" where
  "string_of_nat n =
     (if n < 10 then [digit_char n] else string_of_nat (n div 10) @ [digit_char (n mod 10)])"
  by pat_completeness auto
termination
  by (relation "measure id") auto

declare string_of_nat.simps [simp del]

definition host_key :: "string \<Rightarrow> nat \<Rightarrow> string" where
  "host_key metric i = metric @ ''-'' @ string_of_nat i"

text \<open>
  A value of the dictionary \<^verbatim>\<open>all_reports\<close>: the array of the values of all hosts that
  \<^verbatim>\<open>process_allgather\<close> returns for a metric, or the scalar \<^verbatim>\<open>x.item()\<close> stored later.
\<close>

datatype rval = Arr "real list" | Scal real

text \<open>
  The loop of \<^verbatim>\<open>gather_multihost_report\<close> over \<^verbatim>\<open>report.keys()\<close>. Reading a missing
  key raises \<open>KeyError\<close>; \<^verbatim>\<open>enumerate\<close> of a scalar raises \<open>TypeError\<close>. The dictionary
  comprehension keeps the last value of a key, and \<^verbatim>\<open>update\<close> overrides.
\<close>

fun gather_loop :: "(string \<rightharpoonup> rval) \<Rightarrow> nat \<Rightarrow> string list \<Rightarrow> error + (string \<rightharpoonup> rval)" where
  "gather_loop all_reports current_expert [] = Inr all_reports"
| "gather_loop all_reports current_expert (metric # rest) =
     (case all_reports metric of
        None \<Rightarrow> Inl (KeyError metric)
      | Some (Scal v) \<Rightarrow> Inl (TypeError ''object is not iterable'')
      | Some (Arr xs) \<Rightarrow>
          let metric_reports = map (\<lambda>(i, x). (host_key metric i, Scal x)) (enumerate 0 xs);
              all_reports = all_reports ++ map_of (rev metric_reports)
          in case all_reports (host_key metric current_expert) of
               None \<Rightarrow> Inl (KeyError (host_key metric current_expert))
             | Some v \<Rightarrow> gather_loop (all_reports(metric \<mapsto> v)) current_expert rest)"

text \<open>
  \<^verbatim>\<open>gather_multihost_report\<close>: \<open>report\<close> is given by its items, and \<open>process_allgather\<close>
  is \<^verbatim>\<open>multihost_utils.process_allgather\<close>.
\<close>

definition gather_multihost_report ::
  "((string \<times> real) list \<Rightarrow> (string \<rightharpoonup> rval)) \<Rightarrow> (string \<times> real) list \<Rightarrow> nat
   \<Rightarrow> error + (string \<rightharpoonup> rval)" where
  "gather_multihost_report process_allgather report current_expert =
     (let all_reports = process_allgather report
      in gather_loop all_reports current_expert (map fst report))"

subsection \<open>The training loop\<close>

text \<open>
  The values of a report: the scalars of the evaluation metrics, floating-point numbers
  and integers.
\<close>

datatype report_value = Metric pyfloat | Number real | Count nat

type_synonym report = "string \<rightharpoonup> report_value"

text \<open>
  The collaborators of \<^verbatim>\<open>train\<close>. The type \<open>'s\<close> stands for the replicated optimizer
  state, params, batch stats and metrics state together, \<open>'b\<close> for a batch and \<open>'d\<close> for
  the dataset.
  \<^item> \<open>lr_fn\<close> is the schedule, \<open>lr_override\<close> the learning rate that the hyperparameters
    may fix for the current expert (\<^verbatim>\<open>hps.get(..., lr_fn(global_step))\<close>);
  \<^item> \<open>update_pmapped\<close> shards the batch (\<^verbatim>\<open>data_utils.shard\<close>), runs the step on all
    devices and returns the new state, the mean cost and the mean gradient norm;
  \<^item> \<open>reinit_experts\<close> is the synchronisation on the steps of \<^verbatim>\<open>opt_hparams.reinit_steps\<close>;
  \<^item> \<open>should_eval\<close> is \<^verbatim>\<open>trainer_utils.should_eval\<close> with the eval frequency and the
    eval steps fixed;
  \<^item> \<open>sync_batchnorm_stats\<close> is \<^verbatim>\<open>_maybe_sync_batchnorm_stats\<close> on the state;
  \<^item> \<open>eval_report\<close> is \<^verbatim>\<open>eval_metrics\<close> followed, for the optimizer \<^verbatim>\<open>samuel\<close>, by the
    gathering of the reports of all hosts;
  \<^item> \<open>eval_callbacks\<close> are the \<^verbatim>\<open>run_eval\<close> of the callbacks;
  \<^item> \<open>check_for_early_stopping\<close> is the function of \<^verbatim>\<open>trainer_utils\<close> with the target
    fixed.
\<close>

record ('s, 'b, 'd) trainer =
  lr_fn :: "nat \<Rightarrow> real"
  lr_override :: "'s \<Rightarrow> real option"
  update_pmapped :: "'s \<Rightarrow> 'b \<Rightarrow> nat \<Rightarrow> real \<Rightarrow> error + ('s \<times> real \<times> real)"
  reinit_experts :: "'s \<Rightarrow> nat \<Rightarrow> 's"
  should_eval :: "nat \<Rightarrow> bool"
  sync_batchnorm_stats :: "'s \<Rightarrow> 's"
  eval_report :: "'d \<Rightarrow> 's \<Rightarrow> error + report"
  eval_callbacks :: "('s \<Rightarrow> nat \<Rightarrow> (string \<times> report_value) list) list"
  check_for_early_stopping :: "report \<Rightarrow> bool"
  checkpoint_steps :: "nat list"
  process_index :: nat
  batch_size :: nat
  train_size :: nat

text \<open>
  What an observer sees of a run, in order: the checkpoints saved, the calls of the
  update with their step and learning rate, the steps handed to \<^verbatim>\<open>should_eval\<close>, the
  reports yielded and the final wait for the checkpoint.
\<close>

datatype event =
    CheckpointSave nat nat
  | UpdateCall nat real
  | EvalCheck nat
  | Yield report
  | WaitForCheckpointSave

text \<open>The local variables of the loop of \<^verbatim>\<open>train\<close>, and the events so far.\<close>

record 's loop_state =
  ls_state :: 's
  ls_global_step :: nat
  ls_sum_train_cost :: real
  ls_prev_eval_step :: nat
  ls_lr :: "real option"
  ls_grad_norm :: "real option"
  ls_trace :: "event list"

datatype outcome = Exhausted | StoppedEarly | Raised error

definition emit :: "event \<Rightarrow> 's loop_state \<Rightarrow> 's loop_state" where
  "emit ev ls = ls\<lparr>ls_trace := ls_trace ls @ [ev]\<rparr>"

text \<open>
  \<^verbatim>\<open>report.update(learning_rate=..., global_step=..., ...)\<close> of lines 691 to 699 and 763
  to 771; the entries \<^verbatim>\<open>steps_per_sec\<close> and \<^verbatim>\<open>eval_time\<close>, which depend on the clock,
  are left out. A gradient norm that was never assigned is a \<open>NameError\<close>.
\<close>

definition finish_report ::
  "('s, 'b, 'd) trainer \<Rightarrow> nat \<Rightarrow> 's loop_state \<Rightarrow> real \<Rightarrow> report \<Rightarrow> error + report" where
  "finish_report tr preemption_count ls lr rep =
     (let mean_train_cost =
            ls_sum_train_cost ls / real (max 1 (ls_global_step ls - ls_prev_eval_step ls))
      in if train_size tr = 0 then Inl ZeroDivisionError
         else case ls_grad_norm ls of
                None \<Rightarrow> Inl (NameError ''grad_norm'')
              | Some grad_norm \<Rightarrow>
                  Inr (rep(''learning_rate'' \<mapsto> Number lr,
                           ''global_step'' \<mapsto> Count (ls_global_step ls),
                           ''epoch'' \<mapsto> Count (ls_global_step ls * batch_size tr div train_size tr),
                           ''grad_norm'' \<mapsto> Number grad_norm,
                           ''preemption_count'' \<mapsto> Count preemption_count,
                           ''train_cost'' \<mapsto> Number mean_train_cost)))"

text \<open>Lines 701 to 707: a key of a callback that is already in the report raises.\<close>

fun run_callbacks ::
  "('s \<Rightarrow> nat \<Rightarrow> (string \<times> report_value) list) list \<Rightarrow> 's \<Rightarrow> nat \<Rightarrow> report \<Rightarrow> error + report" where
  "run_callbacks [] st step rep = Inr rep"
| "run_callbacks (eval_callback # rest) st step rep =
     (let callback_metrics = eval_callback st step
      in if \<exists>k\<in>set (map fst callback_metrics). rep k \<noteq> None
         then Inl (ValueError ''There was a collision between the callback metrics and the standard eval metrics keys'')
         else run_callbacks rest st step (rep ++ map_of (rev callback_metrics)))"

text \<open>
  Lines 676 to 740, the evaluation inside the loop: the report is built, yielded and
  checkpointed, the cost accumulator is reset, and early stopping ends the loop. The
  result is the outcome that ends the loop, if any, and the variables afterwards.
\<close>

definition eval_and_yield ::
  "('s, 'b, 'd) trainer \<Rightarrow> 'd \<Rightarrow> nat \<Rightarrow> 's loop_state \<Rightarrow> real \<Rightarrow> outcome option \<times> 's loop_state" where
  "eval_and_yield tr dataset preemption_count ls lr =
     (let ls = ls\<lparr>ls_state := sync_batchnorm_stats tr (ls_state ls)\<rparr>
      in case eval_report tr dataset (ls_state ls) of
           Inl e \<Rightarrow> (Some (Raised e), ls)
         | Inr rep \<Rightarrow>
             (case finish_report tr preemption_count ls lr rep of
                Inl e \<Rightarrow> (Some (Raised e), ls)
              | Inr rep \<Rightarrow>
                  (case run_callbacks (eval_callbacks tr) (ls_state ls) (ls_global_step ls) rep of
                     Inl e \<Rightarrow> (Some (Raised e), ls)
                   | Inr rep \<Rightarrow>
                       (let ls = emit (Yield rep) ls;
                            ls = (if process_index tr = 0
                                  then emit (CheckpointSave (ls_global_step ls) preemption_count) ls
                                  else ls);
                            ls = ls\<lparr>ls_sum_train_cost := 0,
                                    ls_prev_eval_step := ls_global_step ls\<rparr>
                        in if check_for_early_stopping tr rep
                           then (Some StoppedEarly, ls)
                           else (None, ls)))))"

text \<open>
  Lines 616 to 671, one batch up to the increment of the global step: the checkpoint on
  a checkpoint step, the learning rate, the update, the synchronisation of the experts,
  the cost accumulator and \<^verbatim>\<open>global_step += 1\<close>. An exception of the update ends the
  loop.
\<close>

definition train_one_batch ::
  "('s, 'b, 'd) trainer \<Rightarrow> nat \<Rightarrow> 's loop_state \<Rightarrow> 'b \<Rightarrow> error + ('s loop_state \<times> real)" where
  "train_one_batch tr preemption_count ls batch =
     (let ls = (if ls_global_step ls \<in> set (checkpoint_steps tr) \<and> process_index tr = 0
                then emit (CheckpointSave (ls_global_step ls) preemption_count) ls else ls);
          lr = (case lr_override tr (ls_state ls) of
                  Some v \<Rightarrow> v
                | None \<Rightarrow> lr_fn tr (ls_global_step ls));
          ls = emit (UpdateCall (ls_global_step ls) lr) ls
      in case update_pmapped tr (ls_state ls) batch (ls_global_step ls) lr of
           Inl e \<Rightarrow> Inl e
         | Inr (st, cost_val, grad_norm) \<Rightarrow>
             (let st = reinit_experts tr st (ls_global_step ls)
              in Inr (ls\<lparr>ls_state := st,
                         ls_lr := Some lr,
                         ls_grad_norm := Some grad_norm,
                         ls_sum_train_cost := ls_sum_train_cost ls + cost_val,
                         ls_global_step := ls_global_step ls + 1\<rparr>, lr)))"

text \<open>
  The trace of a batch whose update raised: the events up to the call of the update.
\<close>

definition trace_before_update ::
  "('s, 'b, 'd) trainer \<Rightarrow> nat \<Rightarrow> 's loop_state \<Rightarrow> 's loop_state" where
  "trace_before_update tr preemption_count ls =
     (let ls = (if ls_global_step ls \<in> set (checkpoint_steps tr) \<and> process_index tr = 0
                then emit (CheckpointSave (ls_global_step ls) preemption_count) ls else ls);
          lr = (case lr_override tr (ls_state ls) of
                  Some v \<Rightarrow> v
                | None \<Rightarrow> lr_fn tr (ls_global_step ls))
      in emit (UpdateCall (ls_global_step ls) lr) ls)"

text \<open>
  The body of the loop over the batches (lines 616 to 740): the batch is trained, then,
  after the increment of the global step, \<^verbatim>\<open>should_eval\<close> decides on the evaluation.
\<close>

definition loop_body ::
  "('s, 'b, 'd) trainer \<Rightarrow> 'd \<Rightarrow> nat \<Rightarrow> 's loop_state \<Rightarrow> 'b \<Rightarrow> outcome option \<times> 's loop_state" where
  "loop_body tr dataset preemption_count ls batch =
     (case train_one_batch tr preemption_count ls batch of
        Inl e \<Rightarrow> (Some (Raised e), trace_before_update tr preemption_count ls)
      | Inr (ls, lr) \<Rightarrow>
          (let ls = emit (EvalCheck (ls_global_step ls)) ls
           in if should_eval tr (ls_global_step ls)
              then eval_and_yield tr dataset preemption_count ls lr
              else (None, ls)))"

fun train_loop ::
  "('s, 'b, 'd) trainer \<Rightarrow> 'd \<Rightarrow> nat \<Rightarrow> 's loop_state \<Rightarrow> 'b list \<Rightarrow> outcome \<times> 's loop_state" where
  "train_loop tr dataset preemption_count ls [] = (Exhausted, ls)"
| "train_loop tr dataset preemption_count ls (batch # rest) =
     (case loop_body tr dataset preemption_count ls batch of
        (Some out, ls') \<Rightarrow> (out, ls')
      | (None, ls') \<Rightarrow> train_loop tr dataset preemption_count ls' rest)"

text \<open>
  Lines 745 to 788, after the loop has exhausted the batches: a last report unless the
  last step was an evaluation step, then the wait for the checkpoint.
\<close>

definition final_report ::
  "('s, 'b, 'd) trainer \<Rightarrow> 'd \<Rightarrow> nat \<Rightarrow> nat \<Rightarrow> 's loop_state \<Rightarrow> outcome \<times> 's loop_state" where
  "final_report tr dataset preemption_count num_train_steps ls =
     (if ls_prev_eval_step ls \<noteq> num_train_steps
      then
        (let ls = ls\<lparr>ls_state := sync_batchnorm_stats tr (ls_state ls)\<rparr>
         in case eval_report tr dataset (ls_state ls) of
              Inl e \<Rightarrow> (Raised e, ls)
            | Inr rep \<Rightarrow>
                (let lr = lr_fn tr (ls_global_step ls);
                     ls = ls\<lparr>ls_lr := Some lr\<rparr>
                 in case finish_report tr preemption_count ls lr rep of
                      Inl e \<Rightarrow> (Raised e, ls)
                    | Inr rep \<Rightarrow>
                        (let ls = emit (Yield rep) ls;
                             ls = (if process_index tr = 0
                                   then emit (CheckpointSave (ls_global_step ls) preemption_count) ls
                                   else ls)
                         in (Exhausted, emit WaitForCheckpointSave ls))))
      else (Exhausted, emit WaitForCheckpointSave ls))"

text \<open>
  What \<^verbatim>\<open>checkpoint.replicate_and_maybe_restore_checkpoint\<close> returns: the state, the
  global step, the sum of the train costs, the preemption count and whether a checkpoint
  was restored.
\<close>

record 's restored =
  r_state :: 's
  r_global_step :: nat
  r_sum_train_cost :: real
  r_preemption_count :: nat
  r_is_restored :: bool

text \<open>
  Lines 524 to 542: the preemption count and the data seed with which the run goes on.
  \<open>fold_in\<close> is \<^verbatim>\<open>jax.random.fold_in\<close>.
\<close>

definition after_restore :: "('k \<Rightarrow> nat \<Rightarrow> 'k) \<Rightarrow> 'k \<Rightarrow> 's restored \<Rightarrow> nat \<times> 'k" where
  "after_restore fold_in data_rng rs =
     (if r_is_restored rs
      then (r_preemption_count rs + 1, fold_in data_rng (r_global_step rs))
      else (r_preemption_count rs, data_rng))"

text \<open>\<^verbatim>\<open>itertools.islice(it, start, stop)\<close> of an iterator that does not end.\<close>

definition islice :: "(nat \<Rightarrow> 'b) \<Rightarrow> nat \<Rightarrow> nat \<Rightarrow> 'b list" where
  "islice it start stop = map it [start ..< stop]"

text \<open>
  \<^verbatim>\<open>train\<close>, from the restored checkpoint on. \<open>dataset_builder\<close> builds the dataset from
  the data seed and \<open>train_iterator_fn\<close> gives its training batches. The result is the
  preemption count and the data seed used, the outcome and the variables at the end, with
  the events of the run.
\<close>

definition train ::
  "('s, 'b, 'd) trainer \<Rightarrow> ('k \<Rightarrow> nat \<Rightarrow> 'k) \<Rightarrow> ('k \<Rightarrow> 'd) \<Rightarrow> ('d \<Rightarrow> nat \<Rightarrow> 'b) \<Rightarrow> nat \<Rightarrow> 'k
   \<Rightarrow> 's restored \<Rightarrow> (nat \<times> 'k) \<times> outcome \<times> 's loop_state" where
  "train tr fold_in dataset_builder train_iterator_fn num_train_steps data_rng rs =
     (let (preemption_count, data_rng) = after_restore fold_in data_rng rs;
          dataset = dataset_builder data_rng;
          global_step = r_global_step rs;
          ls = \<lparr> ls_state = r_state rs,
                 ls_global_step = global_step,
                 ls_sum_train_cost = r_sum_train_cost rs,
                 ls_prev_eval_step = global_step,
                 ls_lr = None,
                 ls_grad_norm = None,
                 ls_trace = [] \<rparr>;
          train_iter = islice (train_iterator_fn dataset) global_step num_train_steps
      in ((preemption_count, data_rng),
          (case train_loop tr dataset preemption_count ls train_iter of
             (Exhausted, ls) \<Rightarrow> final_report tr dataset preemption_count num_train_steps ls
           | (out, ls) \<Rightarrow> (out, ls))))"

text \<open>The steps of the update calls and of the evaluation checks among the events.\<close>

fun update_steps :: "event list \<Rightarrow> nat list" where
  "update_steps [] = []"
| "update_steps (UpdateCall step lr # evs) = step # update_steps evs"
| "update_steps (ev # evs) = update_steps evs"

fun checked_steps :: "event list \<Rightarrow> nat list" where
  "checked_steps [] = []"
| "checked_steps (EvalCheck step # evs) = step # checked_steps evs"
| "checked_steps (ev # evs) = checked_steps evs"

text \<open>An event that carries a preemption count carries the given one.\<close>

fun shows_preemption_count :: "nat \<Rightarrow> event \<Rightarrow> bool" where
  "shows_preemption_count pc (Yield rep) \<longleftrightarrow> rep ''preemption_count'' = Some (Count pc)"
| "shows_preemption_count pc (CheckpointSave step c) \<longleftrightarrow> c = pc"
| "shows_preemption_count pc ev \<longleftrightarrow> True"

text \<open>
  A second concrete step, on two hosts with two devices each. All devices hold the same
  cost and gradient, so the mean within the groups of the hosts is the value itself;
  \<open>example_pmean\<close> answers so for exactly this grouping and with a zero cost and an
  empty tree for any other.
\<close>

definition example_pmean :: "nat list list \<Rightarrow> real \<times> array pytree \<Rightarrow> real \<times> array pytree" where
  "example_pmean groups x = (if groups = [[0, 1], [2, 3]] then x else (0, []))"

definition example_step_two_hosts :: "error + (unit, unit, array pytree) update_result" where
  "example_step_two_hosts =
     update (\<lambda>r n. r) example_pmean 2 2
       (InjectHyperparamsState 0 [''learning_rate'' \<mapsto> 0] ()) [(''w'', [1])] ()
       (Some [(''w'', [0])]) () 0 (1 / 10) (0::nat) 0
       (\<lambda>p b bs r. ((1, None), [(''w'', [2])])) None
       (\<lambda>g st p b bs. (g, st)) (\<lambda>ms g p np. g)"

text \<open>
  A concrete run for exercising the properties of the loop: states and batches are
  numbers, the update adds the batch to the state, the dataset is its seed and its
  \<open>i\<close>-th batch is \<open>i\<close>, the evaluation steps are \<open>0\<close> and \<open>2\<close>, folding \<open>n\<close> into
  the seed \<open>k\<close> gives \<open>k + n + 1\<close>, and training goes to step \<open>3\<close> from a checkpoint
  written at step \<open>1\<close>, restored or, for comparison, taken as not restored.
\<close>

definition example_trainer :: "(nat, nat, nat) trainer" where
  "example_trainer =
     \<lparr> lr_fn = (\<lambda>step. 1 / 10),
       lr_override = (\<lambda>s. None),
       update_pmapped = (\<lambda>s b step lr. Inr (s + b, 1, 2)),
       reinit_experts = (\<lambda>s step. s),
       should_eval = (\<lambda>step. step \<in> set [0, 2]),
       sync_batchnorm_stats = (\<lambda>s. s),
       eval_report = (\<lambda>d s. Inr Map.empty),
       eval_callbacks = [],
       check_for_early_stopping = (\<lambda>rep. False),
       checkpoint_steps = [],
       process_index = 0,
       batch_size = 1,
       train_size = 1 \<rparr>"

definition example_run :: "bool \<Rightarrow> (nat \<times> nat) \<times> outcome \<times> nat loop_state" where
  "example_run restored =
     train example_trainer (\<lambda>k n. k + n + 1) (\<lambda>k. k) (\<lambda>d i. i) 3 0
       \<lparr> r_state = 0, r_global_step = 1, r_sum_train_cost = 0, r_preemption_count = 0,
         r_is_restored = restored \<rparr>"

section \<open>Verified properties\<close>

subsection \<open>Collective groups\<close>

lemma concat_groups:
  "concat (get_axis_index_groups num_d num_p) = [0 ..< num_p * num_d]"
proof (induction num_p)
  case 0
  show ?case by (simp add: get_axis_index_groups_def)
next
  case (Suc n)
  have "[0 ..< n * num_d] @ [n * num_d ..< n * num_d + num_d] = [0 ..< n * num_d + num_d]"
    by (metis le0 le_add1 upt_add_eq_append add_0)
  with Suc show ?case
    by (simp add: get_axis_index_groups_def add.commute)
qed

lemma group_nth:
  "i < num_p \<Longrightarrow> get_axis_index_groups num_d num_p ! i = [i * num_d ..< i * num_d + num_d]"
  by (simp add: get_axis_index_groups_def)

lemma group_host:
  assumes "a \<in> set [i * num_d ..< i * num_d + num_d]"
  shows "a div num_d = i"
proof -
  from assms have a: "i * num_d \<le> a" "a < i * num_d + num_d" by auto
  then have "0 < num_d" by (cases num_d) auto
  with a show ?thesis
    by (metis add.commute div_nat_eqI mult.commute mult_Suc_right)
qed

subsection \<open>Learning-rate injection\<close>

lemma inject_learning_rate_slot:
  "learning_rate_slot s \<noteq> None \<Longrightarrow>
     snd (inject_learning_rate s lr) = None \<and> learning_rate_slot (fst (inject_learning_rate s lr)) = Some lr"
  by (induction s) (auto split: prod.splits)

lemma inject_learning_rate_error_unchanged:
  "snd (inject_learning_rate s lr) \<noteq> None \<Longrightarrow> fst (inject_learning_rate s lr) = s"
  by (induction s) (auto split: prod.splits)

lemma inject_learning_rate_error_kind:
  "snd (inject_learning_rate s lr) = Some e \<Longrightarrow>
   e = ValueError ''Unsupported optimizer_state type given when trying to inject the learning rate''"
  by (induction s) (auto split: prod.splits if_splits)

text \<open>
  C7. Injecting \<open>lr\<close> into an \<open>InjectHyperparamsState\<close> whose hyperparams contain
  \<open>learning_rate\<close> stores \<open>lr\<close> there; whenever the learning-rate slot of a state
  (read through gradient-accumulation wrappers) exists, the injection succeeds and the
  slot then reads exactly \<open>lr\<close>; for a \<open>GradientAccumulatorState\<close> the injection is
  the injection into its base state; any other state raises the error for unsupported
  states (a \<open>ValueError\<close> in the source), also below wrappers, and whenever an error is
  raised the state is left as it was.
\<close>

theorem inject_learning_rate_contract:
  "(h ''learning_rate'' \<noteq> None \<longrightarrow>
      inject_learning_rate (InjectHyperparamsState c h i) lr
        = (InjectHyperparamsState c (h(''learning_rate'' \<mapsto> lr)) i, None))
   \<and> (learning_rate_slot s \<noteq> None \<longrightarrow>
        snd (inject_learning_rate s lr) = None
        \<and> learning_rate_slot (fst (inject_learning_rate s lr)) = Some lr)
   \<and> inject_learning_rate (GradientAccumulatorState b) lr
        = (GradientAccumulatorState (fst (inject_learning_rate b lr)), snd (inject_learning_rate b lr))
   \<and> inject_learning_rate (OtherState :: 'i opt_state) lr
        = (OtherState,
           Some (ValueError ''Unsupported optimizer_state type given when trying to inject the learning rate''))
   \<and> (\<forall>e. snd (inject_learning_rate s lr) = Some e \<longrightarrow>
          e = ValueError ''Unsupported optimizer_state type given when trying to inject the learning rate''
          \<and> fst (inject_learning_rate s lr) = s)"
proof (intro conjI allI impI)
  assume "h ''learning_rate'' \<noteq> None"
  then show "inject_learning_rate (InjectHyperparamsState c h i) lr
        = (InjectHyperparamsState c (h(''learning_rate'' \<mapsto> lr)) i, None)"
    by simp
next
  assume "learning_rate_slot s \<noteq> None"
  then show "snd (inject_learning_rate s lr) = None"
    and "learning_rate_slot (fst (inject_learning_rate s lr)) = Some lr"
    using inject_learning_rate_slot [of s lr] by blast+
next
  show "inject_learning_rate (GradientAccumulatorState b) lr
        = (GradientAccumulatorState (fst (inject_learning_rate b lr)), snd (inject_learning_rate b lr))"
    by (simp split: prod.splits)
next
  show "inject_learning_rate (OtherState :: 'i opt_state) lr
        = (OtherState,
           Some (ValueError ''Unsupported optimizer_state type given when trying to inject the learning rate''))"
    by simp
next
  fix e assume e: "snd (inject_learning_rate s lr) = Some e"
  then show "e = ValueError ''Unsupported optimizer_state type given when trying to inject the learning rate''"
    by (rule inject_learning_rate_error_kind)
  from e show "fst (inject_learning_rate s lr) = s"
    by (intro inject_learning_rate_error_unchanged) simp
qed

theorem inject_learning_rate_contract_witness:
  "learning_rate_slot (GradientAccumulatorState (InjectHyperparamsState 0 [''learning_rate'' \<mapsto> 0] ())) \<noteq> None
   \<and> learning_rate_slot (fst (inject_learning_rate
         (GradientAccumulatorState (InjectHyperparamsState 0 [''learning_rate'' \<mapsto> 0] ())) (1 / 10)))
       = Some (1 / 10)
   \<and> snd (inject_learning_rate (GradientAccumulatorState (OtherState :: unit opt_state)) 1)
       = Some (ValueError ''Unsupported optimizer_state type given when trying to inject the learning rate'')
   \<and> fst (inject_learning_rate (GradientAccumulatorState (OtherState :: unit opt_state)) 1)
       = GradientAccumulatorState OtherState"
proof -
  have a: "learning_rate_slot (GradientAccumulatorState (InjectHyperparamsState 0 [''learning_rate'' \<mapsto> 0] ())) \<noteq> None"
    by simp
  have b: "learning_rate_slot (fst (inject_learning_rate
         (GradientAccumulatorState (InjectHyperparamsState 0 [''learning_rate'' \<mapsto> 0] ())) (1 / 10)))
       = Some (1 / 10)"
    by (rule inject_learning_rate_contract
          [THEN conjunct2, THEN conjunct1, rule_format, OF a, THEN conjunct2])
  have c: "snd (inject_learning_rate (GradientAccumulatorState (OtherState :: unit opt_state)) 1)
       = Some (ValueError ''Unsupported optimizer_state type given when trying to inject the learning rate'')"
    by simp
  have d: "fst (inject_learning_rate (GradientAccumulatorState (OtherState :: unit opt_state)) 1)
       = GradientAccumulatorState OtherState"
    by (rule inject_learning_rate_contract
          [THEN conjunct2, THEN conjunct2, THEN conjunct2, THEN conjunct2, rule_format, OF c, THEN conjunct2])
  show ?thesis
    by (intro conjI a b c d)
qed

subsection \<open>The training step\<close>

lemma l2_regularization_nonneg: "0 \<le> l2_regularization t"
  unfolding l2_regularization_def
  by (intro sum_list_nonneg) (auto intro!: sum_list_nonneg)

lemma sum_list_scaled_squares:
  "sum_list (map (\<lambda>v. v\<^sup>2) (map (\<lambda>x. c * x) (xs::real list))) = c\<^sup>2 * sum_list (map (\<lambda>v. v\<^sup>2) xs)"
  by (induction xs) (simp_all add: power_mult_distrib distrib_left)

lemma l2_regularization_scaled:
  "l2_regularization (tree_map (map (\<lambda>x. c * x)) t) = c\<^sup>2 * l2_regularization t"
proof (induction t)
  case Nil
  show ?case by (simp add: l2_regularization_def tree_map_def tree_leaves_def)
next
  case (Cons a t)
  obtain k x where a: "a = (k, x)" by (cases a)
  from Cons have "sum_list (map (\<lambda>x. sum_list (map (\<lambda>v. v\<^sup>2) x)) (map snd (map (\<lambda>(k, x). (k, map (\<lambda>x. c * x) x)) t)))
     = c\<^sup>2 * sum_list (map (\<lambda>x. sum_list (map (\<lambda>v. v\<^sup>2) x)) (map snd t))"
    by (simp only: l2_regularization_def tree_map_def tree_leaves_def)
  then show ?case
    unfolding l2_regularization_def tree_map_def tree_leaves_def a
    using sum_list_scaled_squares [of c x]
    by (simp only: list.map prod.case snd_conv sum_list.Cons distrib_left)
qed

lemma clip_grad_scaled:
  "t \<noteq> 0 \<Longrightarrow> t < g \<Longrightarrow>
   clip_grad (Some t) g grad = tree_map (map (\<lambda>x. (t / (g + GRAD_CLIP_EPS)) * x)) grad"
  by (simp add: clip_grad_def Let_def mult.commute)

lemma clip_grad_identity: "g \<le> t \<Longrightarrow> clip_grad (Some t) g grad = grad"
  by (simp add: clip_grad_def Let_def)

lemma clipped_norm:
  assumes "0 < t" "t < g" "g = sqrt (l2_regularization grad)"
  shows "sqrt (l2_regularization (clip_grad (Some t) g grad)) = (t / (g + GRAD_CLIP_EPS)) * g"
proof -
  have e: "0 < GRAD_CLIP_EPS" by (simp add: GRAD_CLIP_EPS_def)
  from assms e have c: "0 \<le> t / (g + GRAD_CLIP_EPS)" by simp
  from assms have "clip_grad (Some t) g grad = tree_map (map (\<lambda>x. (t / (g + GRAD_CLIP_EPS)) * x)) grad"
    by (intro clip_grad_scaled) auto
  then have "sqrt (l2_regularization (clip_grad (Some t) g grad))
      = sqrt ((t / (g + GRAD_CLIP_EPS))\<^sup>2 * l2_regularization grad)"
    by (simp only: l2_regularization_scaled)
  also have "\<dots> = \<bar>t / (g + GRAD_CLIP_EPS)\<bar> * sqrt (l2_regularization grad)"
    by (simp only: real_sqrt_mult real_sqrt_abs)
  also have "\<dots> = (t / (g + GRAD_CLIP_EPS)) * g"
    using c assms(3) by (simp only: abs_of_nonneg)
  finally show ?thesis .
qed

lemma scaled_norm_bounds:
  assumes "0 < t" "t < (g::real)" "0 < e"
  shows "(t / (g + e)) * g \<le> t" "t - e < (t / (g + e)) * g"
proof -
  from assms have ge: "0 < g + e" by simp
  have "t * g \<le> t * (g + e)" using assms by (simp add: algebra_simps)
  then show "(t / (g + e)) * g \<le> t" using ge by (simp add: field_simps)
  have "(t - e) * (g + e) < t * g"
  proof -
    have "(t - e) * (g + e) = t * g - e * (g - t) - e * e" by (simp add: algebra_simps)
    moreover have "0 < e * (g - t)" using assms by simp
    moreover have "0 < e * e" using assms by simp
    ultimately show ?thesis by linarith
  qed
  then show "t - e < (t / (g + e)) * g" using ge by (simp add: field_simps)
qed

lemma update_Inr:
  assumes "update fold_in pmean num_d num_p st params bs ms batch step lr rng ldi tc gc ouf muf = Inr r"
  defines "vg \<equiv> tc params batch bs (fold_in (fold_in rng step) ldi)"
  defines "avg \<equiv> pmean (get_axis_index_groups num_d num_p) (fst (fst vg), snd vg)"
  defines "g \<equiv> sqrt (l2_regularization (snd avg))"
  defines "G \<equiv> clip_grad gc g (snd avg)"
  defines "ost \<equiv> fst (inject_train_loss (fst (inject_learning_rate st lr)) (fst avg))"
  shows "res_grad_norm r = g"
    and "res_cost_value r = fst avg"
    and "res_batch_stats r = snd (fst vg)"
    and "res_optimizer_state r = snd (ouf G ost params batch (snd (fst vg)))"
    and "apply_updates params (fst (ouf G ost params batch (snd (fst vg)))) = Inr (res_params r)"
    and "res_metrics_state r = map_option (\<lambda>m. muf m G params (res_params r)) ms"
  using assms(1) unfolding vg_def avg_def g_def G_def ost_def
  by (auto simp: update_def Let_def split: prod.splits option.splits sum.splits)

text \<open>
  C2, as the code has it. Let \<open>g\<close> be the L2 norm of the averaged gradient tree of a step and \<open>t > 0\<close> the
  configured clip threshold. The step reports \<open>g\<close> as its gradient norm and hands to the
  optimizer the tree \<open>G\<close>, where: if \<open>g \<le> t\<close> then \<open>G\<close> is the gradient itself; if
  \<open>g > t\<close> then every entry of every leaf of \<open>G\<close> is the entry of the gradient times the
  one scalar \<open>t / (g + eps)\<close>, \<open>eps = 1e-6\<close>, and the norm of \<open>G\<close> is
  \<open>t * g / (g + eps)\<close>, which lies in the interval from \<open>t - eps\<close> (excluded) to \<open>t\<close>.
\<close>

theorem update_gradient_clipping:
  fixes fold_in :: "'r \<Rightarrow> nat \<Rightarrow> 'r"
    and pmean :: "nat list list \<Rightarrow> real \<times> array pytree \<Rightarrow> real \<times> array pytree"
    and num_d num_p step ldi :: nat
    and st :: "'i opt_state" and params :: "array pytree" and bs :: 'bs and ms :: "'m option"
    and batch :: 'b and rng :: 'r and lr t :: real
    and tc :: "array pytree \<Rightarrow> 'b \<Rightarrow> 'bs \<Rightarrow> 'r \<Rightarrow> (real \<times> 'bs option) \<times> array pytree"
    and ouf :: "array pytree \<Rightarrow> 'i opt_state \<Rightarrow> array pytree \<Rightarrow> 'b \<Rightarrow> 'bs option \<Rightarrow> array pytree \<times> 'i opt_state"
    and muf :: "'m \<Rightarrow> array pytree \<Rightarrow> array pytree \<Rightarrow> array pytree \<Rightarrow> 'm"
    and r :: "('i, 'bs, 'm) update_result"
  assumes t: "0 < t"
    and u: "update fold_in pmean num_d num_p st params bs ms batch step lr rng ldi tc (Some t) ouf muf = Inr r"
    and vg_def: "vg = tc params batch bs (fold_in (fold_in rng step) ldi)"
    and avg_def: "avg = pmean (get_axis_index_groups num_d num_p) (fst (fst vg), snd vg)"
    and g_def: "g = sqrt (l2_regularization (snd avg))"
    and G_def: "G = clip_grad (Some t) g (snd avg)"
    and ost_def: "ost = fst (inject_train_loss (fst (inject_learning_rate st lr)) (fst avg))"
  shows "res_grad_norm r = g
    \<and> res_optimizer_state r = snd (ouf G ost params batch (snd (fst vg)))
    \<and> apply_updates params (fst (ouf G ost params batch (snd (fst vg)))) = Inr (res_params r)
    \<and> (g \<le> t \<longrightarrow> G = snd avg)
    \<and> (t < g \<longrightarrow>
          G = tree_map (map (\<lambda>x. (t / (g + GRAD_CLIP_EPS)) * x)) (snd avg)
          \<and> sqrt (l2_regularization G) = (t / (g + GRAD_CLIP_EPS)) * g
          \<and> sqrt (l2_regularization G) \<le> t
          \<and> t - GRAD_CLIP_EPS < sqrt (l2_regularization G))"
proof -
  note U = update_Inr [OF u, folded vg_def, folded avg_def, folded g_def, folded G_def ost_def]
  have e: "0 < GRAD_CLIP_EPS" by (simp add: GRAD_CLIP_EPS_def)
  have id: "g \<le> t \<longrightarrow> G = snd avg"
    unfolding G_def by (simp add: clip_grad_identity)
  have sc: "t < g \<longrightarrow>
          G = tree_map (map (\<lambda>x. (t / (g + GRAD_CLIP_EPS)) * x)) (snd avg)
          \<and> sqrt (l2_regularization G) = (t / (g + GRAD_CLIP_EPS)) * g
          \<and> sqrt (l2_regularization G) \<le> t
          \<and> t - GRAD_CLIP_EPS < sqrt (l2_regularization G)"
  proof
    assume tg: "t < g"
    from t have "t \<noteq> 0" by simp
    then have 1: "G = tree_map (map (\<lambda>x. (t / (g + GRAD_CLIP_EPS)) * x)) (snd avg)"
      unfolding G_def using tg by (rule clip_grad_scaled)
    have 2: "sqrt (l2_regularization G) = (t / (g + GRAD_CLIP_EPS)) * g"
      unfolding G_def using t tg g_def by (rule clipped_norm)
    from scaled_norm_bounds [OF t tg e] 2
    have 3: "sqrt (l2_regularization G) \<le> t" "t - GRAD_CLIP_EPS < sqrt (l2_regularization G)"
      by simp_all
    from 1 2 3 show "G = tree_map (map (\<lambda>x. (t / (g + GRAD_CLIP_EPS)) * x)) (snd avg)
          \<and> sqrt (l2_regularization G) = (t / (g + GRAD_CLIP_EPS)) * g
          \<and> sqrt (l2_regularization G) \<le> t
          \<and> t - GRAD_CLIP_EPS < sqrt (l2_regularization G)"
      by (intro conjI)
  qed
  from U(1) U(4) U(5) id sc show ?thesis by (intro conjI)
qed




lemma example_step_clipped:
  "example_step (Some 1)
   = Inr \<lparr> res_optimizer_state = InjectHyperparamsState 0 [''learning_rate'' \<mapsto> 1 / 10] (),
           res_params = [(''w'', [4000001 / 2000001])],
           res_batch_stats = None, res_cost_value = 1,
           res_metrics_state = Some [(''w'', [2000000 / 2000001])], res_grad_norm = 2 \<rparr>"
  by (simp add: example_step_def update_def Let_def apply_updates_def treedef_def tree_leaves_def
       clip_grad_def l2_regularization_def GRAD_CLIP_EPS_def tree_map_def)

theorem update_gradient_clipping_witness:
  "(0::real) < 1 \<and> (1::real) < 2
   \<and> example_step (Some 1)
       = Inr \<lparr> res_optimizer_state = InjectHyperparamsState 0 [''learning_rate'' \<mapsto> 1 / 10] (),
               res_params = [(''w'', [4000001 / 2000001])],
               res_batch_stats = None, res_cost_value = 1,
               res_metrics_state = Some [(''w'', [2000000 / 2000001])], res_grad_norm = 2 \<rparr>
   \<and> [(''w'', [2000000 / 2000001])] = tree_map (map (\<lambda>x. (1 / (2 + GRAD_CLIP_EPS)) * x)) [(''w'', [2])]
   \<and> sqrt (l2_regularization [(''w'', [2000000 / 2000001])]) \<le> 1
   \<and> 1 - GRAD_CLIP_EPS < sqrt (l2_regularization [(''w'', [2000000 / 2000001])])"
proof -
  have t: "(0::real) < 1" and tg: "(1::real) < 2" by simp_all
  note u = example_step_clipped [unfolded example_step_def]
  have avg: "(1, [(''w'', [2::real])])
      = (fst (fst ((1::real, None :: unit option), [(''w'', [2::real])])),
         snd ((1::real, None :: unit option), [(''w'', [2::real])]))"
    by simp
  have g: "(2::real) = sqrt (l2_regularization (snd (1::real, [(''w'', [2::real])])))"
    by (simp add: l2_regularization_def tree_leaves_def)
  have G: "[(''w'', [2000000 / 2000001])] = clip_grad (Some 1) 2 (snd (1::real, [(''w'', [2::real])]))"
    by (simp add: clip_grad_def Let_def tree_map_def GRAD_CLIP_EPS_def)
  have ost: "InjectHyperparamsState 0 [''learning_rate'' \<mapsto> 1 / 10] ()
      = fst (inject_train_loss (fst (inject_learning_rate
              (InjectHyperparamsState 0 [''learning_rate'' \<mapsto> 0] ()) (1 / 10)))
            (fst (1::real, [(''w'', [2::real])])))"
    by simp
  note T = update_gradient_clipping
    [where fold_in = "\<lambda>r n. r" and pmean = "\<lambda>groups x. x" and num_d = 1 and num_p = 1
       and tc = "\<lambda>p b bs r. ((1, None), [(''w'', [2])])"
       and vg = "((1, None), [(''w'', [2])])" and avg = "(1, [(''w'', [2])])" and g = 2
       and G = "[(''w'', [2000000 / 2000001])]"
       and ost = "InjectHyperparamsState 0 [''learning_rate'' \<mapsto> 1 / 10] ()"
       and t = 1, OF t u refl avg g G ost]
  from T have c: "(1::real) < 2 \<longrightarrow>
       [(''w'', [2000000 / 2000001])] = tree_map (map (\<lambda>x. (1 / (2 + GRAD_CLIP_EPS)) * x)) (snd (1::real, [(''w'', [2::real])]))
     \<and> sqrt (l2_regularization [(''w'', [2000000 / 2000001])]) = (1 / (2 + GRAD_CLIP_EPS)) * 2
     \<and> sqrt (l2_regularization [(''w'', [2000000 / 2000001])]) \<le> 1
     \<and> 1 - GRAD_CLIP_EPS < sqrt (l2_regularization [(''w'', [2000000 / 2000001])])"
    by (elim conjE)
  note C = c [rule_format, OF tg, unfolded snd_conv]
  show ?thesis
    by (intro conjI t tg example_step_clipped C [THEN conjunct1]
          C [THEN conjunct2, THEN conjunct2, THEN conjunct1]
          C [THEN conjunct2, THEN conjunct2, THEN conjunct2])
qed


text \<open>
  C2 as stated, for every configured threshold, fails for a negative one, which
  \<^verbatim>\<open>if grad_clip:\<close> accepts: in the example step with the threshold \<open>-1\<close> the gradient
  \<open>w = [2]\<close> has the norm \<open>2 > -1\<close> and is rescaled by \<open>-1 / (2 + eps)\<close>; the tree handed on
  is \<open>w = [-2000000 / 2000001]\<close>, whose norm \<open>2000000 / 2000001\<close> is not within \<open>1\<close> of the
  threshold.
\<close>

theorem update_gradient_clipping_negative_counterexample:
  "example_step (Some (- 1))
     = Inr \<lparr> res_optimizer_state = InjectHyperparamsState 0 [''learning_rate'' \<mapsto> 1 / 10] (),
             res_params = [(''w'', [1 / 2000001])],
             res_batch_stats = None, res_cost_value = 1,
             res_metrics_state = Some [(''w'', [- (2000000 / 2000001)])], res_grad_norm = 2 \<rparr>
   \<and> (- 1 :: real) < 2
   \<and> clip_grad (Some (- 1)) 2 [(''w'', [2])] = [(''w'', [- (2000000 / 2000001)])]
   \<and> sqrt (l2_regularization (clip_grad (Some (- 1)) 2 [(''w'', [2])])) = 2000000 / 2000001
   \<and> \<not> \<bar>sqrt (l2_regularization (clip_grad (Some (- 1)) 2 [(''w'', [2])])) - (- 1)\<bar> \<le> 1"
  by (simp add: example_step_def update_def Let_def apply_updates_def treedef_def tree_leaves_def
       clip_grad_def l2_regularization_def GRAD_CLIP_EPS_def tree_map_def)

text \<open>
  C1, as the code has it. When a metrics state is configured, the metrics update function
  is called with the gradient \<open>G\<close> that is also handed to the optimizer, the old params
  and the new params. On a step on which clipping is configured and triggered
  (\<open>t \<noteq> 0\<close> and \<open>g > t\<close>) this \<open>G\<close> is the rescaled gradient; it is the gradient as
  averaged only when clipping is not configured or not triggered.
\<close>

theorem update_metrics_gradient:
  fixes fold_in :: "'r \<Rightarrow> nat \<Rightarrow> 'r"
    and pmean :: "nat list list \<Rightarrow> real \<times> array pytree \<Rightarrow> real \<times> array pytree"
    and num_d num_p step ldi :: nat
    and st :: "'i opt_state" and params :: "array pytree" and bs :: 'bs and ms :: "'m option"
    and batch :: 'b and rng :: 'r and lr :: real and gc :: "real option"
    and tc :: "array pytree \<Rightarrow> 'b \<Rightarrow> 'bs \<Rightarrow> 'r \<Rightarrow> (real \<times> 'bs option) \<times> array pytree"
    and ouf :: "array pytree \<Rightarrow> 'i opt_state \<Rightarrow> array pytree \<Rightarrow> 'b \<Rightarrow> 'bs option \<Rightarrow> array pytree \<times> 'i opt_state"
    and muf :: "'m \<Rightarrow> array pytree \<Rightarrow> array pytree \<Rightarrow> array pytree \<Rightarrow> 'm"
    and r :: "('i, 'bs, 'm) update_result"
  assumes u: "update fold_in pmean num_d num_p st params bs ms batch step lr rng ldi tc gc ouf muf = Inr r"
    and ms: "ms = Some m"
    and vg_def: "vg = tc params batch bs (fold_in (fold_in rng step) ldi)"
    and avg_def: "avg = pmean (get_axis_index_groups num_d num_p) (fst (fst vg), snd vg)"
    and g_def: "g = sqrt (l2_regularization (snd avg))"
    and G_def: "G = clip_grad gc g (snd avg)"
    and ost_def: "ost = fst (inject_train_loss (fst (inject_learning_rate st lr)) (fst avg))"
  shows "res_metrics_state r = Some (muf m G params (res_params r))
    \<and> res_optimizer_state r = snd (ouf G ost params batch (snd (fst vg)))
    \<and> apply_updates params (fst (ouf G ost params batch (snd (fst vg)))) = Inr (res_params r)
    \<and> (\<forall>t. gc = Some t \<and> t \<noteq> 0 \<and> t < g \<longrightarrow>
           G = tree_map (map (\<lambda>x. x / (g + GRAD_CLIP_EPS) * t)) (snd avg))
    \<and> (gc = None \<or> gc = Some 0 \<or> (\<exists>t. gc = Some t \<and> g \<le> t) \<longrightarrow> G = snd avg)"
proof -
  note U = update_Inr [OF u, folded vg_def, folded avg_def, folded g_def, folded G_def ost_def]
  from U(6) ms have 1: "res_metrics_state r = Some (muf m G params (res_params r))" by simp
  have 2: "\<forall>t. gc = Some t \<and> t \<noteq> 0 \<and> t < g \<longrightarrow>
           G = tree_map (map (\<lambda>x. x / (g + GRAD_CLIP_EPS) * t)) (snd avg)"
    unfolding G_def by (simp add: clip_grad_def Let_def)
  have 3: "gc = None \<or> gc = Some 0 \<or> (\<exists>t. gc = Some t \<and> g \<le> t) \<longrightarrow> G = snd avg"
    unfolding G_def by (auto simp: clip_grad_def Let_def)
  from 1 U(4) U(5) 2 3 show ?thesis by (intro conjI)
qed

text \<open>
  C1 as stated fails: in the example step with clip threshold \<open>1\<close> the gradient is
  \<open>w = [2]\<close>, of norm \<open>2\<close>, and the metrics update function receives
  \<open>w = [2000000 / 2000001]\<close>, the clipped gradient.
\<close>

theorem update_metrics_unclipped_counterexample:
  "map_sum id res_metrics_state (example_step (Some 1)) = Inr (Some [(''w'', [2000000 / 2000001])])
   \<and> [(''w'', [2000000 / 2000001])] \<noteq> [(''w'', [2::real])]"
  by (simp add: example_step_def update_def Let_def apply_updates_def treedef_def tree_leaves_def
       clip_grad_def l2_regularization_def GRAD_CLIP_EPS_def tree_map_def)

theorem update_metrics_gradient_witness:
  "example_step (Some 1)
       = Inr \<lparr> res_optimizer_state = InjectHyperparamsState 0 [''learning_rate'' \<mapsto> 1 / 10] (),
               res_params = [(''w'', [4000001 / 2000001])],
               res_batch_stats = None, res_cost_value = 1,
               res_metrics_state = Some [(''w'', [2000000 / 2000001])], res_grad_norm = 2 \<rparr>
   \<and> Some 1 = Some (1::real) \<and> (1::real) \<noteq> 0 \<and> (1::real) < 2
   \<and> [(''w'', [2000000 / 2000001])] = tree_map (map (\<lambda>x. x / (2 + GRAD_CLIP_EPS) * 1)) [(''w'', [2])]"
proof -
  note u = example_step_clipped [unfolded example_step_def]
  have avg: "(1, [(''w'', [2::real])])
      = (fst (fst ((1::real, None :: unit option), [(''w'', [2::real])])),
         snd ((1::real, None :: unit option), [(''w'', [2::real])]))"
    by simp
  have g: "(2::real) = sqrt (l2_regularization (snd (1::real, [(''w'', [2::real])])))"
    by (simp add: l2_regularization_def tree_leaves_def)
  have G: "[(''w'', [2000000 / 2000001])] = clip_grad (Some 1) 2 (snd (1::real, [(''w'', [2::real])]))"
    by (simp add: clip_grad_def Let_def tree_map_def GRAD_CLIP_EPS_def)
  have ost: "InjectHyperparamsState 0 [''learning_rate'' \<mapsto> 1 / 10] ()
      = fst (inject_train_loss (fst (inject_learning_rate
              (InjectHyperparamsState 0 [''learning_rate'' \<mapsto> 0] ()) (1 / 10)))
            (fst (1::real, [(''w'', [2::real])])))"
    by simp
  note T = update_metrics_gradient
    [where fold_in = "\<lambda>r n. r" and pmean = "\<lambda>groups x. x" and num_d = 1 and num_p = 1
       and tc = "\<lambda>p b bs r. ((1, None), [(''w'', [2])])"
       and vg = "((1, None), [(''w'', [2])])" and avg = "(1, [(''w'', [2])])" and g = 2
       and G = "[(''w'', [2000000 / 2000001])]"
       and ost = "InjectHyperparamsState 0 [''learning_rate'' \<mapsto> 1 / 10] ()"
       and gc = "Some 1", OF u refl refl avg g G ost]
  have h: "Some 1 = Some (1::real) \<and> (1::real) \<noteq> 0 \<and> (1::real) < 2" by simp
  note C = T [THEN conjunct2, THEN conjunct2, THEN conjunct2, THEN conjunct1, rule_format, OF h,
              unfolded snd_conv]
  show ?thesis
    by (intro conjI example_step_clipped h [THEN conjunct1] h [THEN conjunct2, THEN conjunct1]
          h [THEN conjunct2, THEN conjunct2] C)
qed

subsection \<open>Averaging within a host\<close>

lemma groups22: "get_axis_index_groups 2 2 = [[0, 1], [2, 3]]"
  by code_simp

lemma example_step_two_hosts_value:
  "example_step_two_hosts
   = Inr \<lparr> res_optimizer_state = InjectHyperparamsState 0 [''learning_rate'' \<mapsto> 1 / 10] (),
           res_params = [(''w'', [3])],
           res_batch_stats = None, res_cost_value = 1,
           res_metrics_state = Some [(''w'', [2])], res_grad_norm = 2 \<rparr>"
  by (simp add: example_step_two_hosts_def update_def Let_def apply_updates_def treedef_def
       tree_leaves_def clip_grad_def l2_regularization_def example_pmean_def groups22)

text \<open>
  C9. For \<open>num_p\<close> processes with \<open>num_d\<close> local devices each,
  \<open>get_axis_index_groups\<close> returns \<open>num_p\<close> groups, group \<open>i\<close> being the contiguous
  list from \<open>i * num_d\<close> to \<open>i * num_d + num_d - 1\<close>; concatenated they are exactly the
  device indices \<open>0 ..< num_p * num_d\<close>, they are pairwise disjoint, and every device of
  group \<open>i\<close> belongs to host \<open>i\<close> (its index divided by \<open>num_d\<close>). The training step
  averages with these groups: the cost it returns is the first component of \<open>pmean\<close>,
  called with exactly these groups, of the cost and the gradient that differentiating the
  training cost gives; the gradient norm it returns is the norm of the second component;
  and the gradient handed to the metrics update and to the optimizer is that second
  component, clipped. Hence the step depends on \<open>pmean\<close> only through its value at
  these groups.
\<close>

theorem axis_index_groups_per_host:
  fixes fold_in :: "'r \<Rightarrow> nat \<Rightarrow> 'r"
    and pmean :: "nat list list \<Rightarrow> real \<times> array pytree \<Rightarrow> real \<times> array pytree"
    and st :: "'i opt_state" and bs :: 'bs and ms :: "'m option" and batch :: 'b
  shows
  "length (get_axis_index_groups num_d num_p) = num_p
   \<and> (\<forall>i<num_p. get_axis_index_groups num_d num_p ! i = [i * num_d ..< i * num_d + num_d])
   \<and> concat (get_axis_index_groups num_d num_p) = [0 ..< num_p * num_d]
   \<and> (\<forall>i<num_p. \<forall>j<num_p. i \<noteq> j \<longrightarrow>
         set (get_axis_index_groups num_d num_p ! i) \<inter> set (get_axis_index_groups num_d num_p ! j) = {})
   \<and> (\<forall>i<num_p. \<forall>a \<in> set (get_axis_index_groups num_d num_p ! i). a div num_d = i)
   \<and> (\<forall>r. update fold_in pmean num_d num_p st params bs ms batch step lr rng ldi tc gc ouf muf = Inr r \<longrightarrow>
         res_cost_value r
           = fst (pmean (get_axis_index_groups num_d num_p)
                    (fst (fst (tc params batch bs (fold_in (fold_in rng step) ldi))),
                     snd (tc params batch bs (fold_in (fold_in rng step) ldi))))
       \<and> res_grad_norm r
           = sqrt (l2_regularization
                (snd (pmean (get_axis_index_groups num_d num_p)
                        (fst (fst (tc params batch bs (fold_in (fold_in rng step) ldi))),
                         snd (tc params batch bs (fold_in (fold_in rng step) ldi))))))
       \<and> res_metrics_state r
           = map_option
               (\<lambda>m. muf m
                  (clip_grad gc (res_grad_norm r)
                     (snd (pmean (get_axis_index_groups num_d num_p)
                             (fst (fst (tc params batch bs (fold_in (fold_in rng step) ldi))),
                              snd (tc params batch bs (fold_in (fold_in rng step) ldi))))))
                  params (res_params r)) ms
       \<and> res_optimizer_state r
           = snd (ouf
               (clip_grad gc (res_grad_norm r)
                  (snd (pmean (get_axis_index_groups num_d num_p)
                          (fst (fst (tc params batch bs (fold_in (fold_in rng step) ldi))),
                           snd (tc params batch bs (fold_in (fold_in rng step) ldi))))))
               (fst (inject_train_loss (fst (inject_learning_rate st lr)) (res_cost_value r)))
               params batch (snd (fst (tc params batch bs (fold_in (fold_in rng step) ldi))))))
   \<and> (\<forall>pmean'.
         pmean (get_axis_index_groups num_d num_p) = pmean' (get_axis_index_groups num_d num_p) \<longrightarrow>
         update fold_in pmean num_d num_p st params bs ms batch step lr rng ldi tc gc ouf muf
         = update fold_in pmean' num_d num_p st params bs ms batch step lr rng ldi tc gc ouf muf)"
proof (intro conjI allI impI ballI)
  show "length (get_axis_index_groups num_d num_p) = num_p"
    by (simp add: get_axis_index_groups_def)
next
  fix i assume "i < num_p"
  then show "get_axis_index_groups num_d num_p ! i = [i * num_d ..< i * num_d + num_d]"
    by (rule group_nth)
next
  show "concat (get_axis_index_groups num_d num_p) = [0 ..< num_p * num_d]"
    by (rule concat_groups)
next
  fix i j assume ij: "i < num_p" "j < num_p" "i \<noteq> j"
  show "set (get_axis_index_groups num_d num_p ! i) \<inter> set (get_axis_index_groups num_d num_p ! j) = {}"
  proof (rule ccontr)
    assume "\<not> ?thesis"
    then obtain a where "a \<in> set (get_axis_index_groups num_d num_p ! i)"
      "a \<in> set (get_axis_index_groups num_d num_p ! j)" by auto
    with ij have "a div num_d = i" "a div num_d = j"
      by (auto simp only: group_nth dest: group_host)
    with ij show False by simp
  qed
next
  fix i a assume "i < num_p" "a \<in> set (get_axis_index_groups num_d num_p ! i)"
  then show "a div num_d = i" by (simp only: group_nth group_host)
next
  fix r :: "('i, 'bs, 'm) update_result"
  assume u: "update fold_in pmean num_d num_p st params bs ms batch step lr rng ldi tc gc ouf muf = Inr r"
  note U = update_Inr [OF u]
  show c: "res_cost_value r
           = fst (pmean (get_axis_index_groups num_d num_p)
                    (fst (fst (tc params batch bs (fold_in (fold_in rng step) ldi))),
                     snd (tc params batch bs (fold_in (fold_in rng step) ldi))))"
    by (rule U(2))
  show g: "res_grad_norm r
           = sqrt (l2_regularization
                (snd (pmean (get_axis_index_groups num_d num_p)
                        (fst (fst (tc params batch bs (fold_in (fold_in rng step) ldi))),
                         snd (tc params batch bs (fold_in (fold_in rng step) ldi))))))"
    by (rule U(1))
  show "res_metrics_state r
           = map_option
               (\<lambda>m. muf m
                  (clip_grad gc (res_grad_norm r)
                     (snd (pmean (get_axis_index_groups num_d num_p)
                             (fst (fst (tc params batch bs (fold_in (fold_in rng step) ldi))),
                              snd (tc params batch bs (fold_in (fold_in rng step) ldi))))))
                  params (res_params r)) ms"
    unfolding g by (rule U(6))
  show "res_optimizer_state r
           = snd (ouf
               (clip_grad gc (res_grad_norm r)
                  (snd (pmean (get_axis_index_groups num_d num_p)
                          (fst (fst (tc params batch bs (fold_in (fold_in rng step) ldi))),
                           snd (tc params batch bs (fold_in (fold_in rng step) ldi))))))
               (fst (inject_train_loss (fst (inject_learning_rate st lr)) (res_cost_value r)))
               params batch (snd (fst (tc params batch bs (fold_in (fold_in rng step) ldi)))))"
    unfolding g c by (rule U(4))
next
  fix pmean' :: "nat list list \<Rightarrow> real \<times> array pytree \<Rightarrow> real \<times> array pytree"
  assume "pmean (get_axis_index_groups num_d num_p) = pmean' (get_axis_index_groups num_d num_p)"
  then show "update fold_in pmean num_d num_p st params bs ms batch step lr rng ldi tc gc ouf muf
         = update fold_in pmean' num_d num_p st params bs ms batch step lr rng ldi tc gc ouf muf"
    by (simp add: update_def)
qed

theorem axis_index_groups_per_host_witness:
  "(1::nat) < 2
   \<and> get_axis_index_groups 2 2 ! 1 = [2, 3]
   \<and> set (get_axis_index_groups 2 2 ! 0) \<inter> set (get_axis_index_groups 2 2 ! 1) = {}
   \<and> (3::nat) \<in> set (get_axis_index_groups 2 2 ! 1) \<and> (3::nat) div 2 = 1
   \<and> example_step_two_hosts
       = Inr \<lparr> res_optimizer_state = InjectHyperparamsState 0 [''learning_rate'' \<mapsto> 1 / 10] (),
               res_params = [(''w'', [3])],
               res_batch_stats = None, res_cost_value = 1,
               res_metrics_state = Some [(''w'', [2])], res_grad_norm = 2 \<rparr>
   \<and> (1::real) = fst (example_pmean (get_axis_index_groups 2 2) (1, [(''w'', [2])]))
   \<and> (2::real) = sqrt (l2_regularization (snd (example_pmean (get_axis_index_groups 2 2) (1, [(''w'', [2])]))))"
proof -
  note T = axis_index_groups_per_host [where num_d = 2 and num_p = 2 and pmean = example_pmean
      and fold_in = "\<lambda>r n. r" and tc = "\<lambda>p b bs r. ((1, None), [(''w'', [2])])"
      and st = "InjectHyperparamsState 0 [''learning_rate'' \<mapsto> 0] ()" and params = "[(''w'', [1])]"
      and bs = "()" and ms = "Some [(''w'', [0])]" and batch = "()" and step = 0 and lr = "1 / 10"
      and rng = "0::nat" and ldi = 0 and gc = None
      and ouf = "\<lambda>g st p b bs. (g, st)" and muf = "\<lambda>ms g p np. g"]
  have lt: "(1::nat) < 2" "(0::nat) < 2" "(0::nat) \<noteq> 1" by simp_all
  from T [THEN conjunct2, THEN conjunct1, rule_format, OF lt(1)]
  have g1: "get_axis_index_groups 2 2 ! 1 = [1 * 2 ..< 1 * 2 + 2]" .
  have u: "[1 * 2 ..< 1 * 2 + 2] = [2, 3::nat]" by code_simp
  from T [THEN conjunct2, THEN conjunct2, THEN conjunct2, THEN conjunct1, rule_format, OF lt(2) lt(1) lt(3)]
  have d: "set (get_axis_index_groups 2 2 ! 0) \<inter> set (get_axis_index_groups 2 2 ! 1) = {}" .
  from g1 u have m: "(3::nat) \<in> set (get_axis_index_groups 2 2 ! 1)" by simp
  from T [THEN conjunct2, THEN conjunct2, THEN conjunct2, THEN conjunct2, THEN conjunct1, rule_format, OF lt(1) m]
  have h: "(3::nat) div 2 = 1" .
  note run = example_step_two_hosts_value [unfolded example_step_two_hosts_def]
  note S = T [THEN conjunct2, THEN conjunct2, THEN conjunct2, THEN conjunct2, THEN conjunct2,
      THEN conjunct1, rule_format, OF run]
  from S [THEN conjunct1]
  have c: "(1::real) = fst (example_pmean (get_axis_index_groups 2 2) (1, [(''w'', [2])]))"
    by simp
  from S [THEN conjunct2, THEN conjunct1]
  have n: "(2::real) = sqrt (l2_regularization (snd (example_pmean (get_axis_index_groups 2 2) (1, [(''w'', [2])]))))"
    by simp
  from g1 u have g1': "get_axis_index_groups 2 2 ! 1 = [2, 3]" by simp
  show ?thesis
    by (intro conjI lt(1) g1' d m h example_step_two_hosts_value c n)
qed

subsection \<open>The training metrics grabber\<close>

lemma collect_map_Inr:
  "collect (map f xs) = Inr ys \<longleftrightarrow> list_all2 (\<lambda>x y. f x = Inr y) xs ys"
proof (induction xs arbitrary: ys)
  case Nil
  show ?case by auto
next
  case (Cons x xs)
  show ?case
  proof (cases "f x")
    case (Inl e)
    then show ?thesis by (auto simp: list_all2_Cons1)
  next
    case (Inr y)
    then show ?thesis
      using Cons by (cases "collect (map f xs)") (auto simp: list_all2_Cons1)
  qed
qed

lemma collect_map_total:
  assumes "\<forall>k<length xs. f (xs ! k) = Inr (h k)"
  shows "collect (map f xs) = Inr (map h [0 ..< length xs])"
  unfolding collect_map_Inr using assms by (simp add: list_all2_conv_all_nth)

lemma run_updates_snoc:
  "run_updates g (steps @ [(grad, old, new)]) =
     (case run_updates g steps of Inl e \<Rightarrow> Inl e | Inr g' \<Rightarrow> grabber_update g' grad old new)"
proof (induction steps arbitrary: g)
  case Nil
  show ?case by (simp split: sum.splits)
next
  case (Cons s steps)
  obtain a b c where s: "s = (a, b, c)" by (cases s)
  show ?case unfolding s using Cons by (simp split: sum.splits)
qed

lemma grabber_update_step:
  assumes cfg: "grabber_config g ''ema_beta'' = Some \<beta>"
    and td: "treedef (grabber_state g) = treedef grad"
    and lo: "length old = length grad" and ln: "length new = length grad"
    and sh: "\<forall>k<length grad. leaf_shaped (length (snd (grad ! k))) (snd (grabber_state g ! k))
                \<and> length (snd (old ! k)) = length (snd (grad ! k))
                \<and> length (snd (new ! k)) = length (snd (grad ! k))"
  shows "grabber_update g grad old new
     = Inr (g\<lparr>grabber_state :=
              zip (treedef grad)
                (map (\<lambda>k. spec_leaf_update \<beta> (snd (grabber_state g ! k)) (snd (grad ! k)) (snd (old ! k)) (snd (new ! k)))
                   [0 ..< length grad])\<rparr>)"
proof -
  let ?f = "\<lambda>(leaf_state, gr, old_param, new_param).
               if length new_param \<noteq> length old_param
               then Inl (TypeError ''incompatible shapes'')
               else update_param_stats leaf_state gr
                      (arr_sub new_param old_param) new_param (grabber_config g)"
  let ?xs = "zip (tree_leaves (grabber_state g))
               (zip (tree_leaves grad) (zip (tree_leaves old) (tree_leaves new)))"
  let ?h = "\<lambda>k. spec_leaf_update \<beta> (snd (grabber_state g ! k)) (snd (grad ! k)) (snd (old ! k)) (snd (new ! k))"
  from td have ls: "length (grabber_state g) = length grad"
    by (metis length_map treedef_def)
  have len: "length ?xs = length grad"
    using ls lo ln by (simp add: tree_leaves_def)
  have el: "\<forall>k<length ?xs. ?f (?xs ! k) = Inr (?h k)"
  proof (intro allI impI)
    fix k assume "k < length ?xs"
    with len have k: "k < length grad" by simp
    with ls lo ln have xk: "?xs ! k = (snd (grabber_state g ! k), snd (grad ! k), snd (old ! k), snd (new ! k))"
      by (simp add: tree_leaves_def)
    from sh k have s: "leaf_shaped (length (snd (grad ! k))) (snd (grabber_state g ! k))"
      "length (snd (old ! k)) = length (snd (grad ! k))"
      "length (snd (new ! k)) = length (snd (grad ! k))" by auto
    have su: "length (arr_sub (snd (new ! k)) (snd (old ! k))) = length (snd (grad ! k))"
      using s by (simp add: arr_sub_def)
    show "?f (?xs ! k) = Inr (?h k)"
      unfolding xk using s su cfg
      by (simp add: update_param_stats_def spec_leaf_update_def leaf_shaped_def Let_def)
  qed
  have c: "collect (map ?f ?xs) = Inr (map ?h [0 ..< length grad])"
    using collect_map_total [of ?xs ?f ?h] el len by simp
  have fl: "flatten_up_to (treedef grad) (grabber_state g) = Inr (tree_leaves (grabber_state g))"
    using td by (simp add: flatten_up_to_def)
  have un: "tree_unflatten (treedef grad) (map ?h [0 ..< length grad])
      = Inr (zip (treedef grad) (map ?h [0 ..< length grad]))"
    by (simp add: tree_unflatten_def treedef_def)
  show ?thesis
    unfolding grabber_update_def Let_def fl sum.case c un ..
qed


lemma same_shapeD:
  assumes "same_shape p q"
  shows "treedef q = treedef p" "length q = length p"
    "\<And>k. k < length p \<Longrightarrow> length (snd (q ! k)) = length (snd (p ! k))"
proof -
  from assms have td: "treedef p = treedef q"
    and l2: "list_all2 (\<lambda>x y. length x = length y) (map snd p) (map snd q)"
    by (simp_all add: same_shape_def tree_leaves_def)
  from td show "treedef q = treedef p" by simp
  from l2 have len: "length p = length q" by (auto dest: list_all2_lengthD)
  then show "length q = length p" by simp
  fix k assume "k < length p"
  with l2 len show "length (snd (q ! k)) = length (snd (p ! k))"
    by (auto simp: list_all2_conv_all_nth)
qed

lemma grabber_update_shaped:
  assumes cfg: "grabber_config g ''ema_beta'' = Some \<beta>"
    and td: "treedef (grabber_state g) = treedef p"
    and sh: "\<forall>k<length p. leaf_shaped (length (snd (p ! k))) (snd (grabber_state g ! k))"
    and sg: "same_shape p grad" and so: "same_shape p old" and sn: "same_shape p new"
  shows "grabber_update g grad old new
     = Inr (g\<lparr>grabber_state :=
              zip (treedef p)
                (map (\<lambda>k. spec_leaf_update \<beta> (snd (grabber_state g ! k)) (snd (grad ! k)) (snd (old ! k)) (snd (new ! k)))
                   [0 ..< length p])\<rparr>)"
proof -
  note G = same_shapeD [OF sg] and O = same_shapeD [OF so] and N = same_shapeD [OF sn]
  have "grabber_update g grad old new
     = Inr (g\<lparr>grabber_state :=
              zip (treedef grad)
                (map (\<lambda>k. spec_leaf_update \<beta> (snd (grabber_state g ! k)) (snd (grad ! k)) (snd (old ! k)) (snd (new ! k)))
                   [0 ..< length grad])\<rparr>)"
  proof (rule grabber_update_step [OF cfg])
    show "treedef (grabber_state g) = treedef grad" using td G(1) by simp
    show "length old = length grad" using O(2) G(2) by simp
    show "length new = length grad" using N(2) G(2) by simp
    show "\<forall>k<length grad. leaf_shaped (length (snd (grad ! k))) (snd (grabber_state g ! k))
                \<and> length (snd (old ! k)) = length (snd (grad ! k))
                \<and> length (snd (new ! k)) = length (snd (grad ! k))"
      using sh G(2) G(3) O(3) N(3) by simp
  qed
  then show ?thesis using G(1) G(2) by simp
qed

lemma zip_treedef_nth:
  "k < length p \<Longrightarrow> snd (zip (treedef p) (map h [0 ..< length p]) ! k) = h k"
  by (simp add: treedef_def)

lemma treedef_zip: "treedef (zip (treedef p) (map h [0 ..< length p])) = treedef p"
  by (simp add: treedef_def)

lemma spec_leaf_update_shaped:
  assumes "leaf_shaped n s" "length gr = n" "length old = n" "length new = n"
  shows "leaf_shaped n (spec_leaf_update \<beta> s gr old new)"
  using assms
  by (simp add: leaf_shaped_def spec_leaf_update_def arr_add_def arr_scale_def arr_sub_def square_def)

lemma spec_leaf_update_grad_ema_nth:
  assumes "leaf_shaped n s" "length gr = n" "j < n"
  shows "grad_ema (spec_leaf_update \<beta> s gr old new) ! j = \<beta> * (grad_ema s ! j) + (1 - \<beta>) * (gr ! j)"
  using assms
  by (simp add: leaf_shaped_def spec_leaf_update_def arr_add_def arr_scale_def)

lemma closed_form_ema_snoc:
  "closed_form_ema \<beta> (grads @ [gr]) k j
     = \<beta> * closed_form_ema \<beta> grads k j + (1 - \<beta>) * (snd (gr ! k) ! j)"
proof -
  let ?n = "length grads"
  have a: "(\<Sum>i<Suc ?n. \<beta> ^ i * snd ((grads @ [gr]) ! (?n - i) ! k) ! j)
      = \<beta> ^ 0 * snd ((grads @ [gr]) ! (?n - 0) ! k) ! j
        + (\<Sum>i<?n. \<beta> ^ Suc i * snd ((grads @ [gr]) ! (?n - Suc i) ! k) ! j)"
    by (rule sum.lessThan_Suc_shift)
  have b: "\<beta> ^ 0 * snd ((grads @ [gr]) ! (?n - 0) ! k) ! j = snd (gr ! k) ! j"
    by simp
  have c: "(\<Sum>i<?n. \<beta> ^ Suc i * snd ((grads @ [gr]) ! (?n - Suc i) ! k) ! j)
      = (\<Sum>i<?n. \<beta> * (\<beta> ^ i * snd (grads ! (?n - 1 - i) ! k) ! j))"
    by (rule sum.cong) (auto simp: nth_append)
  have d: "(\<Sum>i<?n. \<beta> * (\<beta> ^ i * snd (grads ! (?n - 1 - i) ! k) ! j))
      = \<beta> * (\<Sum>i<?n. \<beta> ^ i * snd (grads ! (?n - 1 - i) ! k) ! j)"
    by (simp only: sum_distrib_left)
  have "closed_form_ema \<beta> (grads @ [gr]) k j
      = (1 - \<beta>) * (\<Sum>i<Suc ?n. \<beta> ^ i * snd ((grads @ [gr]) ! (?n - i) ! k) ! j)"
    by (simp add: closed_form_ema_def)
  also have "\<dots> = (1 - \<beta>) * (snd (gr ! k) ! j
       + \<beta> * (\<Sum>i<?n. \<beta> ^ i * snd (grads ! (?n - 1 - i) ! k) ! j))"
    by (simp only: a b c d)
  finally show ?thesis
    by (simp add: closed_form_ema_def algebra_simps)
qed


lemma node_init_tree:
  "treedef (tree_map node_init p) = treedef p"
  "k < length p \<Longrightarrow> snd (tree_map node_init p ! k) = node_init (snd (p ! k))"
  by (simp_all add: treedef_def tree_map_def case_prod_unfold comp_def)

lemma node_init_shaped:
  "leaf_shaped (length x) (node_init x)"
  "j < length x \<Longrightarrow> grad_ema (node_init x) ! j = 0"
  by (simp_all add: node_init_def leaf_shaped_def zeros_like_def)

lemma run_updates_invariant:
  assumes cfg: "config ''ema_beta'' = Some \<beta>"
    and st: "\<forall>s\<in>set steps. same_shape p (fst s) \<and> same_shape p (fst (snd s)) \<and> same_shape p (snd (snd s))"
  shows "\<exists>g. run_updates \<lparr>grabber_state = tree_map node_init p, grabber_config = config\<rparr> steps = Inr g
      \<and> grabber_config g = config
      \<and> treedef (grabber_state g) = treedef p
      \<and> (\<forall>k<length p. leaf_shaped (length (snd (p ! k))) (snd (grabber_state g ! k)))
      \<and> (\<forall>k<length p. \<forall>j<length (snd (p ! k)).
            grad_ema (snd (grabber_state g ! k)) ! j = closed_form_ema \<beta> (map fst steps) k j)"
  using st
proof (induction steps rule: rev_induct)
  case Nil
  show ?case
    by (simp add: node_init_tree node_init_shaped closed_form_ema_def)
next
  case (snoc s steps)
  obtain gr old new where s: "s = (gr, old, new)" by (cases s)
  from snoc.prems s have sg: "same_shape p gr" and so: "same_shape p old" and sn: "same_shape p new"
    by simp_all
  from snoc.prems have "\<forall>s\<in>set steps. same_shape p (fst s) \<and> same_shape p (fst (snd s)) \<and> same_shape p (snd (snd s))"
    by simp
  from snoc.IH [OF this] obtain g where
    run: "run_updates \<lparr>grabber_state = tree_map node_init p, grabber_config = config\<rparr> steps = Inr g"
    and gc: "grabber_config g = config"
    and td: "treedef (grabber_state g) = treedef p"
    and sh: "\<forall>k<length p. leaf_shaped (length (snd (p ! k))) (snd (grabber_state g ! k))"
    and cf: "\<forall>k<length p. \<forall>j<length (snd (p ! k)).
            grad_ema (snd (grabber_state g ! k)) ! j = closed_form_ema \<beta> (map fst steps) k j"
    by blast
  let ?h = "\<lambda>k. spec_leaf_update \<beta> (snd (grabber_state g ! k)) (snd (gr ! k)) (snd (old ! k)) (snd (new ! k))"
  let ?g' = "g\<lparr>grabber_state := zip (treedef p) (map ?h [0 ..< length p])\<rparr>"
  from cfg gc have cfg': "grabber_config g ''ema_beta'' = Some \<beta>" by simp
  have up: "grabber_update g gr old new = Inr ?g'"
    by (rule grabber_update_shaped [OF cfg' td sh sg so sn])
  have r: "run_updates \<lparr>grabber_state = tree_map node_init p, grabber_config = config\<rparr> (steps @ [s]) = Inr ?g'"
    unfolding s run_updates_snoc run using up by simp
  note G = same_shapeD [OF sg] and O = same_shapeD [OF so] and N = same_shapeD [OF sn]
  have 1: "grabber_config ?g' = config" using gc by simp
  have 2: "treedef (grabber_state ?g') = treedef p" by (simp add: treedef_zip)
  have 3: "\<forall>k<length p. leaf_shaped (length (snd (p ! k))) (snd (grabber_state ?g' ! k))"
  proof (intro allI impI)
    fix k assume k: "k < length p"
    then have "snd (grabber_state ?g' ! k) = ?h k" by (simp add: zip_treedef_nth)
    moreover have "leaf_shaped (length (snd (p ! k))) (?h k)"
      using sh k G(3) O(3) N(3) by (intro spec_leaf_update_shaped) simp_all
    ultimately show "leaf_shaped (length (snd (p ! k))) (snd (grabber_state ?g' ! k))" by simp
  qed
  have 4: "\<forall>k<length p. \<forall>j<length (snd (p ! k)).
            grad_ema (snd (grabber_state ?g' ! k)) ! j = closed_form_ema \<beta> (map fst (steps @ [s])) k j"
  proof (intro allI impI)
    fix k j assume k: "k < length p" and j: "j < length (snd (p ! k))"
    from k have e: "snd (grabber_state ?g' ! k) = ?h k" by (simp add: zip_treedef_nth)
    from sh k have l: "leaf_shaped (length (snd (p ! k))) (snd (grabber_state g ! k))" by simp
    from G(3) k have lg: "length (snd (gr ! k)) = length (snd (p ! k))" by simp
    have "grad_ema (?h k) ! j = \<beta> * (grad_ema (snd (grabber_state g ! k)) ! j) + (1 - \<beta>) * (snd (gr ! k) ! j)"
      by (rule spec_leaf_update_grad_ema_nth [OF l lg j])
    also have "\<dots> = \<beta> * closed_form_ema \<beta> (map fst steps) k j + (1 - \<beta>) * (snd (gr ! k) ! j)"
      using cf k j by simp
    also have "\<dots> = closed_form_ema \<beta> (map fst (steps @ [s])) k j"
      unfolding s by (simp add: closed_form_ema_snoc)
    finally show "grad_ema (snd (grabber_state ?g' ! k)) ! j = closed_form_ema \<beta> (map fst (steps @ [s])) k j"
      using e by simp
  qed
  from r 1 2 3 4 show ?case by blast
qed

text \<open>
  C3. Let the config hold \<open>ema_beta = \<beta>\<close> and let every step (gradient, old params, new
  params) consist of trees isomorphic to the params \<open>p\<close>. Then \<open>create\<close> succeeds with
  the zero-initialised accumulator, applying \<open>update\<close> once per step succeeds, and in
  the final state entry \<open>j\<close> of \<open>grad_ema\<close> of leaf \<open>k\<close> is the closed form
  \<open>(1 - \<beta>) * (\<Sum>i<N. \<beta>^i * grad (N-1-i))\<close> at that entry. Moreover every single step
  \<open>n\<close> takes the state before it to the state after it by the recurrence of
  \<open>spec_leaf_update\<close> in every leaf: the four moving averages of the gradient, the squared
  gradient, the update \<open>new - old\<close> and the squared update, and \<open>param_norm\<close> the norm of
  the new parameter. This holds for every real \<open>\<beta>\<close>, in particular for \<open>\<beta>\<close> in \<open>[0, 1)\<close>.
\<close>

theorem grabber_ema_closed_form:
  assumes cfg: "config ''ema_beta'' = Some \<beta>"
    and st: "\<forall>s\<in>set steps. same_shape p (fst s) \<and> same_shape p (fst (snd s)) \<and> same_shape p (snd (snd s))"
  shows "\<exists>g0 g. create p config = Inr g0 \<and> run_updates g0 steps = Inr g
      \<and> treedef (grabber_state g) = treedef p
      \<and> (\<forall>k<length p. \<forall>j<length (snd (p ! k)).
            grad_ema (snd (grabber_state g ! k)) ! j = closed_form_ema \<beta> (map fst steps) k j)
      \<and> (\<forall>n<length steps. \<exists>a b.
            run_updates g0 (take n steps) = Inr a \<and> run_updates g0 (take (Suc n) steps) = Inr b
            \<and> (\<forall>k<length p.
                  snd (grabber_state b ! k)
                  = spec_leaf_update \<beta> (snd (grabber_state a ! k)) (snd (fst (steps ! n) ! k))
                      (snd (fst (snd (steps ! n)) ! k)) (snd (snd (snd (steps ! n)) ! k))))"
proof -
  let ?g0 = "\<lparr>grabber_state = tree_map node_init p, grabber_config = config\<rparr>"
  have c: "create p config = Inr ?g0"
    using cfg by (simp add: create_def validate_config_def)
  from run_updates_invariant [where config = config, OF cfg st] obtain g where
    run: "run_updates ?g0 steps = Inr g"
    and td: "treedef (grabber_state g) = treedef p"
    and cf: "\<forall>k<length p. \<forall>j<length (snd (p ! k)).
            grad_ema (snd (grabber_state g ! k)) ! j = closed_form_ema \<beta> (map fst steps) k j"
    by blast
  have per: "\<forall>n<length steps. \<exists>a b.
            run_updates ?g0 (take n steps) = Inr a \<and> run_updates ?g0 (take (Suc n) steps) = Inr b
            \<and> (\<forall>k<length p.
                  snd (grabber_state b ! k)
                  = spec_leaf_update \<beta> (snd (grabber_state a ! k)) (snd (fst (steps ! n) ! k))
                      (snd (fst (snd (steps ! n)) ! k)) (snd (snd (snd (steps ! n)) ! k)))"
  proof (intro allI impI)
    fix n assume n: "n < length steps"
    obtain gr old new where s: "steps ! n = (gr, old, new)" by (cases "steps ! n")
    from n have mem: "steps ! n \<in> set steps" by simp
    with st s have sg: "same_shape p gr" and so: "same_shape p old" and sn: "same_shape p new"
      by (metis fst_conv, metis fst_conv snd_conv, metis snd_conv)
    have "\<forall>s\<in>set (take n steps). same_shape p (fst s) \<and> same_shape p (fst (snd s)) \<and> same_shape p (snd (snd s))"
      using st by (meson in_set_takeD)
    from run_updates_invariant [where config = config, OF cfg this] obtain a where
      ra: "run_updates ?g0 (take n steps) = Inr a"
      and gc: "grabber_config a = config"
      and tda: "treedef (grabber_state a) = treedef p"
      and sh: "\<forall>k<length p. leaf_shaped (length (snd (p ! k))) (snd (grabber_state a ! k))"
      by blast
    let ?h = "\<lambda>k. spec_leaf_update \<beta> (snd (grabber_state a ! k)) (snd (gr ! k)) (snd (old ! k)) (snd (new ! k))"
    let ?b = "a\<lparr>grabber_state := zip (treedef p) (map ?h [0 ..< length p])\<rparr>"
    from cfg gc have cfg': "grabber_config a ''ema_beta'' = Some \<beta>" by simp
    have up: "grabber_update a gr old new = Inr ?b"
      by (rule grabber_update_shaped [OF cfg' tda sh sg so sn])
    have tk: "take (Suc n) steps = take n steps @ [(gr, old, new)]"
      using n s by (simp add: take_Suc_conv_app_nth)
    have rb: "run_updates ?g0 (take (Suc n) steps) = Inr ?b"
      unfolding tk run_updates_snoc ra using up by simp
    have "\<forall>k<length p. snd (grabber_state ?b ! k) = ?h k"
      by (simp add: zip_treedef_nth)
    with ra rb s show "\<exists>a b.
            run_updates ?g0 (take n steps) = Inr a \<and> run_updates ?g0 (take (Suc n) steps) = Inr b
            \<and> (\<forall>k<length p.
                  snd (grabber_state b ! k)
                  = spec_leaf_update \<beta> (snd (grabber_state a ! k)) (snd (fst (steps ! n) ! k))
                      (snd (fst (snd (steps ! n)) ! k)) (snd (snd (snd (steps ! n)) ! k)))"
      by (intro exI [of _ a] exI [of _ ?b]) simp
  qed
  from c run td cf per show ?thesis by blast
qed


theorem grabber_ema_closed_form_witness:
  "[''ema_beta'' \<mapsto> 1 / 2] ''ema_beta'' = Some (1 / 2 :: real)
   \<and> same_shape (example_grads ! 0) (example_grads ! 0)
   \<and> same_shape (example_grads ! 0) (example_grads ! 1)
   \<and> (\<exists>g0 g. create (example_grads ! 0) [''ema_beta'' \<mapsto> 1 / 2] = Inr g0
         \<and> run_updates g0 example_steps = Inr g
         \<and> grad_ema (snd (grabber_state g ! 0)) ! 0 = 5 / 4
         \<and> grad_ema (snd (grabber_state g ! 1)) ! 1 = 5 / 4)"
proof -
  have cfg: "[''ema_beta'' \<mapsto> 1 / 2] ''ema_beta'' = Some (1 / 2 :: real)" by simp
  have s0: "same_shape (example_grads ! 0) (example_grads ! 0)"
    and s1: "same_shape (example_grads ! 0) (example_grads ! 1)"
    by (simp_all add: same_shape_def example_grads_def treedef_def tree_leaves_def)
  have st: "\<forall>s\<in>set example_steps. same_shape (example_grads ! 0) (fst s)
      \<and> same_shape (example_grads ! 0) (fst (snd s)) \<and> same_shape (example_grads ! 0) (snd (snd s))"
  proof -
    have "set example_grads = {example_grads ! 0, example_grads ! 1}"
      by (simp add: example_grads_def)
    then show ?thesis using s0 s1 by (auto simp: example_steps_def)
  qed
  from grabber_ema_closed_form [where config = "[''ema_beta'' \<mapsto> 1 / 2]", OF cfg st]
  obtain g0 g where c: "create (example_grads ! 0) [''ema_beta'' \<mapsto> 1 / 2] = Inr g0"
    and r: "run_updates g0 example_steps = Inr g"
    and cf: "\<forall>k<length (example_grads ! 0). \<forall>j<length (snd (example_grads ! 0 ! k)).
            grad_ema (snd (grabber_state g ! k)) ! j = closed_form_ema (1 / 2) (map fst example_steps) k j"
    by blast
  have m: "map fst example_steps = example_grads"
    by (simp add: example_steps_def comp_def)
  have v0: "closed_form_ema (1 / 2) example_grads 0 0 = 5 / 4"
    and v1: "closed_form_ema (1 / 2) example_grads 1 1 = 5 / 4"
    by (simp_all add: closed_form_ema_def example_grads_def numeral_2_eq_2)
  have k0: "0 < length (example_grads ! 0)" "0 < length (snd (example_grads ! 0 ! 0))"
    and k1: "1 < length (example_grads ! 0)" "1 < length (snd (example_grads ! 0 ! 1))"
    by (simp_all add: example_grads_def)
  from cf k0 m v0 have e0: "grad_ema (snd (grabber_state g ! 0)) ! 0 = 5 / 4" by simp
  from cf k1 m v1 have e1: "grad_ema (snd (grabber_state g ! 1)) ! 1 = 5 / 4" by simp
  from c r e0 e1 have "\<exists>g0 g. create (example_grads ! 0) [''ema_beta'' \<mapsto> 1 / 2] = Inr g0
         \<and> run_updates g0 example_steps = Inr g
         \<and> grad_ema (snd (grabber_state g ! 0)) ! 0 = 5 / 4
         \<and> grad_ema (snd (grabber_state g ! 1)) ! 1 = 5 / 4"
    by (intro exI conjI)
  with cfg s0 s1 show ?thesis by (intro conjI)
qed

subsection \<open>Evaluation\<close>

lemma merged_metrics_Nil [simp]: "merged_metrics shard merge params bs [] f = None"
  by (simp add: merged_metrics_def)

lemma foldl_Some:
  "foldl (\<lambda>metrics batch.
              case metrics of
                None \<Rightarrow> Some (f params bs (shard batch))
              | Some m \<Rightarrow> Some (merge m (f params bs (shard batch)))) (Some a) xs
   = Some (foldl merge a (map (\<lambda>b. f params bs (shard b)) xs))"
  by (induction xs arbitrary: a) simp_all

lemma merged_metrics_Cons:
  "merged_metrics shard merge params bs (b # batches) f
     = Some (foldl merge (f params bs (shard b)) (map (\<lambda>b. f params bs (shard b)) batches))"
  by (simp add: merged_metrics_def Let_def foldl_Some)

lemma merged_metrics_None_iff:
  "merged_metrics shard merge params bs batches f = None \<longleftrightarrow> batches = []"
  by (cases batches) (simp_all add: merged_metrics_Cons)

lemma find_isnan_None:
  "find (\<lambda>(key, val). np_isnan val) metrics = None \<longleftrightarrow> (\<forall>kv\<in>set metrics. \<not> np_isnan (snd kv))"
  by (auto simp: find_None_iff)

lemma find_isnan_Some:
  "find (\<lambda>(key, val). np_isnan val) metrics = Some (k, v) \<Longrightarrow> (k, v) \<in> set metrics \<and> v = NaN"
  by (auto simp: find_Some_iff np_isnan_def in_set_conv_nth)

text \<open>
  C4. \<open>evaluate\<close> raises if and only if the batch iterator is not empty and at least one
  scalar that \<open>compute\<close> returns for the merged metrics is NaN; the exception is then a
  \<open>TrainingDivergedError\<close> naming a key whose scalar is NaN; when no scalar is NaN it
  returns the computed metrics. The merged metrics of a non-empty iterator are the
  metrics of the first batch merged, in order, with those of the others.
\<close>

theorem evaluate_diverged_iff:
  "((\<exists>e. evaluate shard merge compute params bs batches f = Inl e)
      \<longleftrightarrow> batches \<noteq> []
          \<and> (\<exists>m. merged_metrics shard merge params bs batches f = Some m
                \<and> (\<exists>kv\<in>set (compute m). np_isnan (snd kv))))
   \<and> (\<forall>e. evaluate shard merge compute params bs batches f = Inl e \<longrightarrow>
          (\<exists>m key. merged_metrics shard merge params bs batches f = Some m
                  \<and> (key, NaN) \<in> set (compute m)
                  \<and> e = TrainingDivergedError (''NaN detected in '' @ key)))
   \<and> (\<forall>m. merged_metrics shard merge params bs batches f = Some m
            \<and> (\<forall>kv\<in>set (compute m). \<not> np_isnan (snd kv)) \<longrightarrow>
          evaluate shard merge compute params bs batches f = Inr (Some (compute m)))
   \<and> (\<forall>b rest. batches = b # rest \<longrightarrow>
          merged_metrics shard merge params bs batches f
            = Some (foldl merge (f params bs (shard b)) (map (\<lambda>b. f params bs (shard b)) rest)))"
proof (cases "merged_metrics shard merge params bs batches f")
  case None
  then have "batches = []" by (simp add: merged_metrics_None_iff)
  with None show ?thesis by (simp add: evaluate_def)
next
  case (Some m)
  then have ne: "batches \<noteq> []" using merged_metrics_None_iff [of shard merge params bs batches f] by auto
  show ?thesis
  proof (cases "find (\<lambda>(key, val). np_isnan val) (compute m)")
    case None
    with Some have ev: "evaluate shard merge compute params bs batches f = Inr (Some (compute m))"
      by (simp add: evaluate_def)
    from None have nn: "\<forall>kv\<in>set (compute m). \<not> np_isnan (snd kv)"
      by (simp only: find_isnan_None)
    from ev nn ne Some show ?thesis
      by (auto simp: merged_metrics_Cons)
  next
    case (Some kv)
    obtain k v where kv: "kv = (k, v)" by (cases kv)
    from Some kv find_isnan_Some [of "compute m" k v]
    have mem: "(k, NaN) \<in> set (compute m)" by auto
    then have ex: "\<exists>kv\<in>set (compute m). np_isnan (snd kv)"
      by (force simp: np_isnan_def)
    have ev: "evaluate shard merge compute params bs batches f
        = Inl (TrainingDivergedError (''NaN detected in '' @ k))"
      using \<open>merged_metrics shard merge params bs batches f = Some m\<close> Some kv
      by (simp add: evaluate_def Let_def)
    show ?thesis
      using ev mem ex ne \<open>merged_metrics shard merge params bs batches f = Some m\<close>
      by (auto simp: merged_metrics_Cons)
  qed
qed


theorem evaluate_diverged_iff_witness:
  "[Finite 1, NaN] \<noteq> []
   \<and> merged_metrics id (\<lambda>a b. b) () () [Finite 1, NaN] (\<lambda>p bs b. b) = Some NaN
   \<and> np_isnan (snd (''loss'', NaN))
   \<and> evaluate id (\<lambda>a b. b) (\<lambda>m. [(''loss'', m)]) () () [Finite 1, NaN] (\<lambda>p bs b. b)
       = Inl (TrainingDivergedError ''NaN detected in loss'')
   \<and> merged_metrics id (\<lambda>a b. b) () () [Finite 1] (\<lambda>p bs b. b) = Some (Finite 1)
   \<and> \<not> np_isnan (Finite 1)
   \<and> evaluate id (\<lambda>a b. b) (\<lambda>m. [(''loss'', m)]) () () [Finite 1] (\<lambda>p bs b. b)
       = Inr (Some [(''loss'', Finite 1)])"
proof -
  note T = evaluate_diverged_iff [where shard = id and merge = "\<lambda>a b. b"
      and compute = "\<lambda>m. [(''loss'', m)]" and params = "()" and bs = "()"
      and f = "\<lambda>p bs b. b" and batches = "[Finite 1, NaN]"]
  note S = evaluate_diverged_iff [where shard = id and merge = "\<lambda>a b. b"
      and compute = "\<lambda>m. [(''loss'', m)]" and params = "()" and bs = "()"
      and f = "\<lambda>p bs b. b" and batches = "[Finite 1]"]
  have ne: "[Finite 1, NaN] \<noteq> []" by simp
  have mm: "merged_metrics id (\<lambda>a b. b) () () [Finite 1, NaN] (\<lambda>p bs b. b) = Some NaN"
    by (simp add: merged_metrics_def)
  have nan: "np_isnan (snd (''loss'', NaN))" by (simp add: np_isnan_def)
  have rhs: "[Finite 1, NaN] \<noteq> []
      \<and> (\<exists>m. merged_metrics id (\<lambda>a b. b) () () [Finite 1, NaN] (\<lambda>p bs b. b) = Some m
            \<and> (\<exists>kv\<in>set [(''loss'', m)]. np_isnan (snd kv)))"
    using ne mm nan by simp
  from T [THEN conjunct1, THEN iffD2, OF rhs] obtain e where
    e: "evaluate id (\<lambda>a b. b) (\<lambda>m. [(''loss'', m)]) () () [Finite 1, NaN] (\<lambda>p bs b. b) = Inl e" ..
  from T [THEN conjunct2, THEN conjunct1, rule_format, OF e] obtain m key where
    "(key, NaN) \<in> set [(''loss'', m)]" "e = TrainingDivergedError (''NaN detected in '' @ key)"
    by auto
  then have "e = TrainingDivergedError ''NaN detected in loss''" by simp
  with e have ev: "evaluate id (\<lambda>a b. b) (\<lambda>m. [(''loss'', m)]) () () [Finite 1, NaN] (\<lambda>p bs b. b)
       = Inl (TrainingDivergedError ''NaN detected in loss'')" by simp
  have mm1: "merged_metrics id (\<lambda>a b. b) () () [Finite 1] (\<lambda>p bs b. b) = Some (Finite 1)"
    by (simp add: merged_metrics_def)
  have nn: "\<not> np_isnan (Finite 1)" by (simp add: np_isnan_def)
  have h: "merged_metrics id (\<lambda>a b. b) () () [Finite 1] (\<lambda>p bs b. b) = Some (Finite 1)
      \<and> (\<forall>kv\<in>set [(''loss'', Finite 1)]. \<not> np_isnan (snd kv))"
    using mm1 nn by simp
  note ok = S [THEN conjunct2, THEN conjunct2, THEN conjunct1, rule_format, OF h]
  show ?thesis
    by (intro conjI ne mm nan ev mm1 nn ok)
qed

lemma foldl_prefix_update:
  "foldl (\<lambda>d key. d(pre @ key := g key)) d1 ks x
     = (if prefix pre x \<and> drop (length pre) x \<in> set ks then g (drop (length pre) x) else d1 x)"
proof (induction ks arbitrary: d1)
  case Nil
  show ?case by simp
next
  case (Cons k ks)
  show ?case
    unfolding foldl_Cons Cons.IH
    by (auto simp: prefix_def)
qed

lemma merge_and_apply_prefix_map_add:
  "merge_and_apply_prefix d1 d2 pre = d1 ++ split_report pre (Some d2)"
proof
  fix x
  show "merge_and_apply_prefix d1 d2 pre x = (d1 ++ split_report pre (Some d2)) x"
  proof (cases "prefix pre x \<and> drop (length pre) x \<in> fst ` set d2")
    case True
    then obtain v where "map_of d2 (drop (length pre) x) = Some v"
      by (metis domD dom_map_of_conv_image_fst)
    with True show ?thesis
      by (simp add: merge_and_apply_prefix_def foldl_prefix_update split_report_def map_add_def)
  next
    case False
    then have "prefix pre x \<longrightarrow> map_of d2 (drop (length pre) x) = None"
      by (metis domIff dom_map_of_conv_image_fst)
    with False show ?thesis
      by (auto simp: merge_and_apply_prefix_def foldl_prefix_update split_report_def map_add_def)
  qed
qed

lemma split_report_None [simp]: "split_report pre None = Map.empty"
  by (simp add: split_report_def)

lemma split_report_other_prefix:
  "\<not> prefix pre x \<Longrightarrow> split_report pre m x = None"
  by (simp add: split_report_def split: option.splits)

lemma split_prefixes_differ:
  "\<not> (prefix ''train/'' x \<and> prefix ''valid/'' x)"
  "\<not> (prefix ''train/'' x \<and> prefix ''test/'' x)"
  "\<not> (prefix ''valid/'' x \<and> prefix ''test/'' x)"
  by (auto simp: prefix_def)

lemma evaluate_Nil: "evaluate shard merge compute params bs [] f = Inr None"
  by (simp add: evaluate_def)

lemma eval_metrics_eq:
  "eval_metrics shard merge compute params bs dataset n nt f =
     (case evaluate shard merge compute params bs (eval_train_epoch dataset nt) f of
        Inl e \<Rightarrow> Inl e
      | Inr m1 \<Rightarrow>
          (case evaluate shard merge compute params bs (valid_epoch dataset n) f of
             Inl e \<Rightarrow> Inl e
           | Inr m2 \<Rightarrow>
               (case evaluate shard merge compute params bs (test_epoch dataset n) f of
                  Inl e \<Rightarrow> Inl e
                | Inr m3 \<Rightarrow>
                    Inr (split_report ''train/'' m1 ++ split_report ''valid/'' m2
                           ++ split_report ''test/'' m3))))"
  by (simp add: eval_metrics_def Let_def merge_and_apply_prefix_map_add
        split: sum.splits option.splits)


lemma split_report_lookup:
  "split_report pre (Some sm) (pre @ k) = map_of sm k"
  by (simp add: split_report_def)

text \<open>
  C5. On an iterator without batches \<open>evaluate\<close> returns no metrics (\<open>None\<close>), not an
  error. \<open>eval_metrics\<close> runs \<open>evaluate\<close> on the train, the valid and the test split in
  this order, an exception of a split ending it, and returns the three split reports
  merged: each metric \<open>k\<close> of a split under the key of the split name, a slash and \<open>k\<close>.
  A split whose iterator is empty contributes no key: the report has no key with its
  prefix.
\<close>

theorem eval_metrics_splits:
  "evaluate shard merge compute params bs [] f = Inr None
   \<and> eval_metrics shard merge compute params bs dataset n nt f =
       (case evaluate shard merge compute params bs (eval_train_epoch dataset nt) f of
          Inl e \<Rightarrow> Inl e
        | Inr m1 \<Rightarrow>
            (case evaluate shard merge compute params bs (valid_epoch dataset n) f of
               Inl e \<Rightarrow> Inl e
             | Inr m2 \<Rightarrow>
                 (case evaluate shard merge compute params bs (test_epoch dataset n) f of
                    Inl e \<Rightarrow> Inl e
                  | Inr m3 \<Rightarrow>
                      Inr (split_report ''train/'' m1 ++ split_report ''valid/'' m2
                             ++ split_report ''test/'' m3))))
   \<and> (\<forall>report. eval_metrics shard merge compute params bs dataset n nt f = Inr report \<longrightarrow>
         (eval_train_epoch dataset nt = [] \<longrightarrow> (\<forall>x. prefix ''train/'' x \<longrightarrow> report x = None))
       \<and> (valid_epoch dataset n = [] \<longrightarrow> (\<forall>x. prefix ''valid/'' x \<longrightarrow> report x = None))
       \<and> (test_epoch dataset n = [] \<longrightarrow> (\<forall>x. prefix ''test/'' x \<longrightarrow> report x = None))
       \<and> (\<forall>sm k. evaluate shard merge compute params bs (eval_train_epoch dataset nt) f = Inr (Some sm)
              \<longrightarrow> report (''train/'' @ k) = map_of sm k)
       \<and> (\<forall>sm k. evaluate shard merge compute params bs (valid_epoch dataset n) f = Inr (Some sm)
              \<longrightarrow> report (''valid/'' @ k) = map_of sm k)
       \<and> (\<forall>sm k. evaluate shard merge compute params bs (test_epoch dataset n) f = Inr (Some sm)
              \<longrightarrow> report (''test/'' @ k) = map_of sm k))"
proof (intro conjI allI impI)
  show "evaluate shard merge compute params bs [] f = Inr None" by (rule evaluate_Nil)
next
  show "eval_metrics shard merge compute params bs dataset n nt f =
       (case evaluate shard merge compute params bs (eval_train_epoch dataset nt) f of
          Inl e \<Rightarrow> Inl e
        | Inr m1 \<Rightarrow>
            (case evaluate shard merge compute params bs (valid_epoch dataset n) f of
               Inl e \<Rightarrow> Inl e
             | Inr m2 \<Rightarrow>
                 (case evaluate shard merge compute params bs (test_epoch dataset n) f of
                    Inl e \<Rightarrow> Inl e
                  | Inr m3 \<Rightarrow>
                      Inr (split_report ''train/'' m1 ++ split_report ''valid/'' m2
                             ++ split_report ''test/'' m3))))"
    by (rule eval_metrics_eq)
next
  fix report x
  assume r: "eval_metrics shard merge compute params bs dataset n nt f = Inr report"
    and e: "eval_train_epoch dataset nt = []" and p: "prefix ''train/'' x"
  from p split_prefixes_differ [of x] have "\<not> prefix ''valid/'' x" "\<not> prefix ''test/'' x" by auto
  with r e show "report x = None"
    by (auto simp: eval_metrics_eq evaluate_Nil map_add_def split_report_other_prefix
          split: sum.splits option.splits)
next
  fix report x
  assume r: "eval_metrics shard merge compute params bs dataset n nt f = Inr report"
    and e: "valid_epoch dataset n = []" and p: "prefix ''valid/'' x"
  from p split_prefixes_differ [of x] have "\<not> prefix ''train/'' x" "\<not> prefix ''test/'' x" by auto
  with r e show "report x = None"
    by (auto simp: eval_metrics_eq evaluate_Nil map_add_def split_report_other_prefix
          split: sum.splits option.splits)
next
  fix report x
  assume r: "eval_metrics shard merge compute params bs dataset n nt f = Inr report"
    and e: "test_epoch dataset n = []" and p: "prefix ''test/'' x"
  from p split_prefixes_differ [of x] have "\<not> prefix ''train/'' x" "\<not> prefix ''valid/'' x" by auto
  with r e show "report x = None"
    by (auto simp: eval_metrics_eq evaluate_Nil map_add_def split_report_other_prefix
          split: sum.splits option.splits)
next
  fix report sm k
  assume r: "eval_metrics shard merge compute params bs dataset n nt f = Inr report"
    and e: "evaluate shard merge compute params bs (eval_train_epoch dataset nt) f = Inr (Some sm)"
  from split_prefixes_differ [of "''train/'' @ k"]
  have "\<not> prefix ''valid/'' (''train/'' @ k)" "\<not> prefix ''test/'' (''train/'' @ k)" by auto
  with r e split_report_lookup [of "''train/''" sm k] show "report (''train/'' @ k) = map_of sm k"
    by (auto simp: eval_metrics_eq map_add_def split_report_other_prefix
          split: sum.splits option.splits)
next
  fix report sm k
  assume r: "eval_metrics shard merge compute params bs dataset n nt f = Inr report"
    and e: "evaluate shard merge compute params bs (valid_epoch dataset n) f = Inr (Some sm)"
  from split_prefixes_differ [of "''valid/'' @ k"]
  have "\<not> prefix ''train/'' (''valid/'' @ k)" "\<not> prefix ''test/'' (''valid/'' @ k)" by auto
  with r e split_report_lookup [of "''valid/''" sm k] show "report (''valid/'' @ k) = map_of sm k"
    by (auto simp: eval_metrics_eq map_add_def split_report_other_prefix
          split: sum.splits option.splits)
next
  fix report sm k
  assume r: "eval_metrics shard merge compute params bs dataset n nt f = Inr report"
    and e: "evaluate shard merge compute params bs (test_epoch dataset n) f = Inr (Some sm)"
  from split_prefixes_differ [of "''test/'' @ k"]
  have "\<not> prefix ''train/'' (''test/'' @ k)" "\<not> prefix ''valid/'' (''test/'' @ k)" by auto
  with r e split_report_lookup [of "''test/''" sm k] show "report (''test/'' @ k) = map_of sm k"
    by (auto simp: eval_metrics_eq map_add_def split_report_other_prefix
          split: sum.splits option.splits)
qed


theorem eval_metrics_splits_witness:
  "test_epoch \<lparr>eval_train_epoch = \<lambda>n. [Finite 1], valid_epoch = \<lambda>n. [Finite 2], test_epoch = \<lambda>n. []\<rparr> None = []
   \<and> prefix ''test/'' ''test/loss''
   \<and> evaluate id (\<lambda>a b. b) (\<lambda>m. [(''loss'', m)]) () () [Finite 1] (\<lambda>p bs b. b)
        = Inr (Some [(''loss'', Finite 1)])
   \<and> (\<exists>report.
         eval_metrics id (\<lambda>a b. b) (\<lambda>m. [(''loss'', m)]) () ()
           \<lparr>eval_train_epoch = \<lambda>n. [Finite 1], valid_epoch = \<lambda>n. [Finite 2], test_epoch = \<lambda>n. []\<rparr>
           None None (\<lambda>p bs b. b) = Inr report
         \<and> report ''test/loss'' = None
         \<and> report ''train/loss'' = Some (Finite 1))"
proof -
  let ?D = "\<lparr>eval_train_epoch = \<lambda>n. [Finite 1], valid_epoch = \<lambda>n. [Finite 2],
             test_epoch = \<lambda>n. ([] :: pyfloat list)\<rparr>"
  note T = eval_metrics_splits [where shard = id and merge = "\<lambda>a b. b"
      and compute = "\<lambda>m. [(''loss'', m)]" and params = "()" and bs = "()"
      and f = "\<lambda>p bs b. b" and dataset = ?D and n = None and nt = None]
  have te: "test_epoch ?D None = []" by simp
  have pf: "prefix ''test/'' ''test/loss''" by simp
  have e1: "evaluate id (\<lambda>a b. b) (\<lambda>m. [(''loss'', m)]) () () [Finite 1] (\<lambda>p bs b. b)
        = Inr (Some [(''loss'', Finite 1)])"
    and e2: "evaluate id (\<lambda>a b. b) (\<lambda>m. [(''loss'', m)]) () () [Finite 2] (\<lambda>p bs b. b)
        = Inr (Some [(''loss'', Finite 2)])"
    by (simp_all add: evaluate_def merged_metrics_def np_isnan_def)
  have e1': "evaluate id (\<lambda>a b. b) (\<lambda>m. [(''loss'', m)]) () () (eval_train_epoch ?D None) (\<lambda>p bs b. b)
        = Inr (Some [(''loss'', Finite 1)])"
    using e1 by simp
  from T [THEN conjunct2, THEN conjunct1] e1 e2 T [THEN conjunct1]
  obtain report where
    r: "eval_metrics id (\<lambda>a b. b) (\<lambda>m. [(''loss'', m)]) () () ?D None None (\<lambda>p bs b. b) = Inr report"
    by simp
  note C = T [THEN conjunct2, THEN conjunct2, rule_format, OF r]
  from C [THEN conjunct2, THEN conjunct2, THEN conjunct1, rule_format, OF te pf]
  have a: "report ''test/loss'' = None" .
  from C [THEN conjunct2, THEN conjunct2, THEN conjunct2, THEN conjunct1, rule_format, OF e1', of "''loss''"]
  have b: "report ''train/loss'' = Some (Finite 1)" by simp
  from r a b have "\<exists>report.
         eval_metrics id (\<lambda>a b. b) (\<lambda>m. [(''loss'', m)]) () () ?D None None (\<lambda>p bs b. b) = Inr report
         \<and> report ''test/loss'' = None
         \<and> report ''train/loss'' = Some (Finite 1)"
    by (intro exI conjI)
  with te pf e1 show ?thesis by (intro conjI)
qed

subsection \<open>Gathering the reports of all hosts\<close>

lemma digit_char_inj: "a < 10 \<Longrightarrow> b < 10 \<Longrightarrow> digit_char a = digit_char b \<Longrightarrow> a = b"
proof -
  assume a: "a < 10" and b: "b < 10" and e: "digit_char a = digit_char b"
  have d: "distinct ''0123456789''" by simp
  have l: "length ''0123456789'' = 10" by simp
  from e have "''0123456789'' ! a = ''0123456789'' ! b" by (simp only: digit_char_def)
  with d a b l show "a = b" by (metis nth_eq_iff_index_eq)
qed

lemma digit_char_not_dash: "d < 10 \<Longrightarrow> digit_char d \<noteq> CHR ''-''"
proof -
  assume "d < 10"
  then have "''0123456789'' ! d \<in> set ''0123456789''" by (intro nth_mem) simp
  then show ?thesis unfolding digit_char_def by auto
qed

lemma string_of_nat_no_dash: "CHR ''-'' \<notin> set (string_of_nat n)"
proof (induction n rule: string_of_nat.induct)
  case (1 n)
  show ?case
  proof (cases "n < 10")
    case True
    then show ?thesis using digit_char_not_dash [of n] by (subst string_of_nat.simps) auto
  next
    case False
    have "n mod 10 < 10" by simp
    then have "digit_char (n mod 10) \<noteq> CHR ''-''" by (rule digit_char_not_dash)
    with False 1 show ?thesis by (subst string_of_nat.simps) auto
  qed
qed

lemma string_of_nat_nonempty: "string_of_nat n \<noteq> []"
  by (subst string_of_nat.simps) simp

lemma string_of_nat_inj: "string_of_nat n = string_of_nat m \<Longrightarrow> n = m"
proof (induction n arbitrary: m rule: string_of_nat.induct)
  case (1 n)
  show ?case
  proof (cases "n < 10")
    case n: True
    show ?thesis
    proof (cases "m < 10")
      case True
      with n "1.prems" show ?thesis
        by (simp add: string_of_nat.simps [of n] string_of_nat.simps [of m] digit_char_inj)
    next
      case False
      with n "1.prems" string_of_nat_nonempty [of "m div 10"] show ?thesis
        by (simp add: string_of_nat.simps [of n] string_of_nat.simps [of m] Cons_eq_append_conv)
    qed
  next
    case n: False
    show ?thesis
    proof (cases "m < 10")
      case True
      with n "1.prems" string_of_nat_nonempty [of "n div 10"] show ?thesis
        by (simp add: string_of_nat.simps [of n] string_of_nat.simps [of m] append_eq_Cons_conv)
    next
      case False
      with n "1.prems" have e: "string_of_nat (n div 10) = string_of_nat (m div 10)"
        and d: "digit_char (n mod 10) = digit_char (m mod 10)"
        by (simp_all add: string_of_nat.simps [of n] string_of_nat.simps [of m])
      from "1.IH" [OF n e] have "n div 10 = m div 10" .
      moreover from d have "n mod 10 = m mod 10" by (intro digit_char_inj) simp_all
      ultimately show ?thesis by (metis div_mult_mod_eq)
    qed
  qed
qed

lemma append_sep_inj:
  assumes "xs @ c # s = ys @ c # t" "c \<notin> set s" "c \<notin> set t"
  shows "xs = ys \<and> s = t"
  using assms
proof (induction xs arbitrary: ys)
  case Nil
  then show ?case by (cases ys) auto
next
  case (Cons x xs)
  then show ?case by (cases ys) auto
qed

lemma host_key_inj: "host_key a i = host_key b j \<Longrightarrow> a = b \<and> i = j"
  unfolding host_key_def
  using append_sep_inj [of a "CHR ''-''" "string_of_nat i" b "string_of_nat j"]
    string_of_nat_no_dash string_of_nat_inj by auto

lemma host_key_neq: "host_key a i \<noteq> a"
  by (simp add: host_key_def)


lemma metric_reports_keys:
  "map fst (map (\<lambda>(i, x). (host_key m i, Scal x)) (enumerate 0 xs)) = map (host_key m) [0 ..< length xs]"
proof -
  have "map fst (map (\<lambda>(i, x). (host_key m i, Scal x)) ys) = map (host_key m) (map fst ys)"
    for ys :: "(nat \<times> real) list"
    by (induction ys) auto
  then have "map fst (map (\<lambda>(i, x). (host_key m i, Scal x)) (enumerate 0 xs))
      = map (host_key m) (map fst (enumerate 0 xs))" .
  also have "map fst (enumerate 0 xs) = [0 ..< length xs]"
    by (simp add: map_fst_enumerate)
  finally show ?thesis .
qed

lemma metric_reports_distinct:
  "distinct (map fst (map (\<lambda>(i, x). (host_key m i, Scal x)) (enumerate 0 xs)))"
  unfolding metric_reports_keys
  by (auto simp: distinct_map inj_on_def dest: host_key_inj)

lemma metric_reports_mem:
  "i < length xs \<Longrightarrow> (host_key m i, Scal (xs ! i)) \<in> set (map (\<lambda>(i, x). (host_key m i, Scal x)) (enumerate 0 xs))"
  by (force simp: enumerate_eq_zip in_set_zip)

lemma metric_reports_lookup:
  assumes "i < length xs"
  shows "(r ++ map_of (rev (map (\<lambda>(i, x). (host_key m i, Scal x)) (enumerate 0 xs)))) (host_key m i)
     = Some (Scal (xs ! i))"
proof -
  let ?L = "map (\<lambda>(i, x). (host_key m i, Scal x)) (enumerate 0 xs)"
  have "distinct (map fst (rev ?L))"
    using metric_reports_distinct [of m xs] by (simp only: rev_map [symmetric] distinct_rev)
  moreover have "(host_key m i, Scal (xs ! i)) \<in> set (rev ?L)"
    using metric_reports_mem [OF assms, of m] by simp
  ultimately have "map_of (rev ?L) (host_key m i) = Some (Scal (xs ! i))"
    by (rule map_of_is_SomeI)
  then show ?thesis by (simp add: map_add_def)
qed

lemma metric_reports_other:
  assumes "\<forall>i<length xs. x \<noteq> host_key m i"
  shows "(r ++ map_of (rev (map (\<lambda>(i, x). (host_key m i, Scal x)) (enumerate 0 xs)))) x = r x"
proof -
  let ?L = "map (\<lambda>(i, x). (host_key m i, Scal x)) (enumerate 0 xs)"
  have s: "fst ` set (rev ?L) = set (map fst ?L)" by (simp only: set_rev set_map)
  have "x \<notin> fst ` set (rev ?L)"
  proof
    assume "x \<in> fst ` set (rev ?L)"
    then have "x \<in> set (map (host_key m) [0 ..< length xs])" by (simp only: s metric_reports_keys)
    with assms show False by auto
  qed
  then have "map_of (rev ?L) x = None" by (rule map_of_eq_None_iff [THEN iffD2])
  then show ?thesis by (simp add: map_add_def)
qed

lemma gather_loop_keys:
  assumes "distinct ms" and e: "e < nh"
    and "\<forall>m\<in>set ms. r m = Some (Arr (vals m)) \<and> length (vals m) = nh"
    and "\<forall>m\<in>set ms. \<forall>m'\<in>set ms. \<forall>i<nh. m \<noteq> host_key m' i"
  shows "\<exists>r'. gather_loop r e ms = Inr r'
      \<and> (\<forall>m\<in>set ms. r' m = Some (Scal (vals m ! e))
            \<and> (\<forall>i<nh. r' (host_key m i) = Some (Scal (vals m ! i))))
      \<and> (\<forall>x. x \<notin> set ms \<and> (\<forall>m\<in>set ms. \<forall>i<nh. x \<noteq> host_key m i) \<longrightarrow> r' x = r x)"
  using assms(1,3,4)
proof (induction ms arbitrary: r)
  case Nil
  show ?case by simp
next
  case (Cons m ms)
  let ?xs = "vals m"
  let ?r1 = "r ++ map_of (rev (map (\<lambda>(i, x). (host_key m i, Scal x)) (enumerate 0 ?xs)))"
  let ?r2 = "?r1(m \<mapsto> Scal (?xs ! e))"
  from Cons.prems have rm: "r m = Some (Arr ?xs)" and len: "length ?xs = nh" by simp_all
  from Cons.prems have dm: "m \<notin> set ms" and dms: "distinct ms" by simp_all
  have nc_m: "\<forall>m'\<in>set (m # ms). \<forall>i<nh. m' \<noteq> host_key m i"
    and nc_m': "\<forall>m'\<in>set (m # ms). \<forall>i<nh. m \<noteq> host_key m' i"
    using Cons.prems(3) by simp_all
  have r1e: "?r1 (host_key m e) = Some (Scal (?xs ! e))"
    using e len by (intro metric_reports_lookup) simp
  have step: "gather_loop r e (m # ms) = gather_loop ?r2 e ms"
    using rm r1e by (simp add: Let_def)
  have h1: "\<forall>m'\<in>set ms. ?r2 m' = Some (Arr (vals m')) \<and> length (vals m') = nh"
  proof
    fix m' assume m': "m' \<in> set ms"
    with dm have ne: "m' \<noteq> m" by auto
    from m' nc_m len have "\<forall>i<length ?xs. m' \<noteq> host_key m i" by simp
    then have "?r1 m' = r m'" by (rule metric_reports_other)
    with ne m' Cons.prems(2) show "?r2 m' = Some (Arr (vals m')) \<and> length (vals m') = nh" by simp
  qed
  have h2: "\<forall>a\<in>set ms. \<forall>b\<in>set ms. \<forall>i<nh. a \<noteq> host_key b i"
    using Cons.prems(3) by simp
  from Cons.IH [OF dms h1 h2] obtain r' where
    run: "gather_loop ?r2 e ms = Inr r'"
    and a: "\<forall>m\<in>set ms. r' m = Some (Scal (vals m ! e))
            \<and> (\<forall>i<nh. r' (host_key m i) = Some (Scal (vals m ! i)))"
    and c: "\<forall>x. x \<notin> set ms \<and> (\<forall>m\<in>set ms. \<forall>i<nh. x \<noteq> host_key m i) \<longrightarrow> r' x = ?r2 x"
    by blast
  have hm: "r' m = Some (Scal (?xs ! e))"
  proof -
    from nc_m' have "\<forall>m'\<in>set ms. \<forall>i<nh. m \<noteq> host_key m' i" by simp
    with c dm have "r' m = ?r2 m" by blast
    then show ?thesis by simp
  qed
  have hk: "\<forall>i<nh. r' (host_key m i) = Some (Scal (?xs ! i))"
  proof (intro allI impI)
    fix i assume i: "i < nh"
    from nc_m i have "host_key m i \<notin> set ms" by auto
    moreover have "\<forall>m'\<in>set ms. \<forall>j<nh. host_key m i \<noteq> host_key m' j"
      using dm host_key_inj by blast
    ultimately have "r' (host_key m i) = ?r2 (host_key m i)" using c by blast
    also have "\<dots> = ?r1 (host_key m i)" using host_key_neq [of m i] by simp
    also have "\<dots> = Some (Scal (?xs ! i))"
      using i len by (intro metric_reports_lookup) simp
    finally show "r' (host_key m i) = Some (Scal (?xs ! i))" .
  qed
  have ho: "\<forall>x. x \<notin> set (m # ms) \<and> (\<forall>m'\<in>set (m # ms). \<forall>i<nh. x \<noteq> host_key m' i) \<longrightarrow> r' x = r x"
  proof (intro allI impI)
    fix x assume x: "x \<notin> set (m # ms) \<and> (\<forall>m'\<in>set (m # ms). \<forall>i<nh. x \<noteq> host_key m' i)"
    then have "r' x = ?r2 x" using c by simp
    also have "\<dots> = ?r1 x" using x by simp
    also have "\<dots> = r x" using x len by (intro metric_reports_other) simp
    finally show "r' x = r x" .
  qed
  from step run a hm hk ho show ?case by simp
qed


text \<open>
  C6, as the code has it. Let the report have distinct keys, let \<open>process_allgather\<close>
  return for every metric \<open>m\<close> of the report the array \<open>vals m\<close> of its values on the
  \<open>nh\<close> hosts, let the current expert be the index of a host, and let no metric name of
  the report be the per-host key \<open>m'-i\<close> of a metric \<open>m'\<close> of the report and a host \<open>i\<close>.
  Then \<open>gather_multihost_report\<close> returns a mapping in which, for every metric \<open>m\<close> and
  host \<open>i\<close>, the key \<open>m-i\<close> holds the value of \<open>m\<close> on host \<open>i\<close>, and the key \<open>m\<close>
  holds the value of \<open>m\<close> on the current expert, which is the value under \<open>m-e\<close>.
\<close>

theorem gather_multihost_report_keys:
  assumes d: "distinct (map fst report)"
    and ag: "\<forall>m\<in>set (map fst report).
               process_allgather report m = Some (Arr (vals m)) \<and> length (vals m) = nh"
    and e: "current_expert < nh"
    and nc: "\<forall>m\<in>set (map fst report). \<forall>m'\<in>set (map fst report). \<forall>i<nh. m \<noteq> host_key m' i"
  shows "\<exists>r. gather_multihost_report process_allgather report current_expert = Inr r
      \<and> (\<forall>m\<in>set (map fst report).
            (\<forall>i<nh. r (host_key m i) = Some (Scal (vals m ! i)))
            \<and> r m = Some (Scal (vals m ! current_expert))
            \<and> r m = r (host_key m current_expert))"
proof -
  from gather_loop_keys [OF d e ag nc] obtain r where
    run: "gather_loop (process_allgather report) current_expert (map fst report) = Inr r"
    and a: "\<forall>m\<in>set (map fst report). r m = Some (Scal (vals m ! current_expert))
            \<and> (\<forall>i<nh. r (host_key m i) = Some (Scal (vals m ! i)))"
    by blast
  from run have "gather_multihost_report process_allgather report current_expert = Inr r"
    by (simp add: gather_multihost_report_def)
  moreover from a e have "\<forall>m\<in>set (map fst report).
            (\<forall>i<nh. r (host_key m i) = Some (Scal (vals m ! i)))
            \<and> r m = Some (Scal (vals m ! current_expert))
            \<and> r m = r (host_key m current_expert)"
    by simp
  ultimately show ?thesis by blast
qed

text \<open>
  C6 as stated, for every report, fails: for the report with the metrics \<open>a-0\<close> (value
  \<open>7\<close>) and \<open>a\<close> (value \<open>5\<close>), one host and current expert \<open>0\<close>, the per-host key of
  \<open>a\<close> overwrites the key \<open>a-0\<close>: in the result \<open>a-0\<close> holds \<open>5\<close> while \<open>a-0-0\<close>, the
  value of the metric \<open>a-0\<close> on the current expert, holds \<open>7\<close>.
\<close>

theorem gather_multihost_report_collision_counterexample:
  "map_sum id (\<lambda>r. (r ''a-0'', r (host_key ''a-0'' 0)))
     (gather_multihost_report (\<lambda>report. map_of (map (\<lambda>(k, v). (k, Arr [v])) report))
        [(''a-0'', 7), (''a'', 5)] 0)
   = Inr (Some (Scal 5), Some (Scal 7))"
  by (simp add: gather_multihost_report_def host_key_def digit_char_def enumerate_eq_zip
        string_of_nat.simps)

theorem gather_multihost_report_keys_witness:
  "distinct (map fst [(''loss'', 1 :: real), (''acc'', 2)])
   \<and> (1::nat) < 2
   \<and> (\<exists>r. gather_multihost_report (\<lambda>report. [''loss'' \<mapsto> Arr [1, 3], ''acc'' \<mapsto> Arr [2, 4]])
              [(''loss'', 1), (''acc'', 2)] 1 = Inr r
          \<and> r ''loss-0'' = Some (Scal 1) \<and> r ''loss-1'' = Some (Scal 3)
          \<and> r ''acc-0'' = Some (Scal 2) \<and> r ''acc-1'' = Some (Scal 4)
          \<and> r ''loss'' = Some (Scal 3) \<and> r ''acc'' = Some (Scal 4))"
proof -
  let ?report = "[(''loss'', 1 :: real), (''acc'', 2)]"
  let ?ag = "\<lambda>report :: (string \<times> real) list. [''loss'' \<mapsto> Arr [1, 3], ''acc'' \<mapsto> Arr [2, 4]]"
  let ?vals = "\<lambda>m. if m = ''loss'' then [1, 3 :: real] else [2, 4]"
  have d: "distinct (map fst ?report)" by simp
  have e: "(1::nat) < 2" by simp
  have ag: "\<forall>m\<in>set (map fst ?report). ?ag ?report m = Some (Arr (?vals m)) \<and> length (?vals m) = 2"
    by simp
  have nc: "\<forall>m\<in>set (map fst ?report). \<forall>m'\<in>set (map fst ?report). \<forall>i<2. m \<noteq> host_key m' i"
    by (simp add: host_key_def)
  from gather_multihost_report_keys [where process_allgather = ?ag and vals = ?vals, OF d ag e nc]
  obtain r where run: "gather_multihost_report ?ag ?report 1 = Inr r"
    and a: "\<forall>m\<in>set (map fst ?report).
            (\<forall>i<2. r (host_key m i) = Some (Scal (?vals m ! i)))
            \<and> r m = Some (Scal (?vals m ! 1))
            \<and> r m = r (host_key m 1)"
    by blast
  have k: "host_key ''loss'' 0 = ''loss-0''" "host_key ''loss'' 1 = ''loss-1''"
    "host_key ''acc'' 0 = ''acc-0''" "host_key ''acc'' 1 = ''acc-1''"
    by (simp_all add: host_key_def digit_char_def string_of_nat.simps)
  from a have l: "\<forall>i<2. r (host_key ''loss'' i) = Some (Scal ([1, 3] ! i))"
    and c: "\<forall>i<2. r (host_key ''acc'' i) = Some (Scal ([2, 4] ! i))"
    and l1: "r ''loss'' = Some (Scal 3)" and c1: "r ''acc'' = Some (Scal 4)"
    by simp_all
  from l [rule_format, of 0] l [rule_format, of 1] c [rule_format, of 0] c [rule_format, of 1] k
  have v: "r ''loss-0'' = Some (Scal 1)" "r ''loss-1'' = Some (Scal 3)"
    "r ''acc-0'' = Some (Scal 2)" "r ''acc-1'' = Some (Scal 4)"
    by simp_all
  from run v l1 c1 have "\<exists>r. gather_multihost_report ?ag ?report 1 = Inr r
          \<and> r ''loss-0'' = Some (Scal 1) \<and> r ''loss-1'' = Some (Scal 3)
          \<and> r ''acc-0'' = Some (Scal 2) \<and> r ''acc-1'' = Some (Scal 4)
          \<and> r ''loss'' = Some (Scal 3) \<and> r ''acc'' = Some (Scal 4)"
    by (intro exI conjI)
  with d e show ?thesis by (intro conjI)
qed

subsection \<open>The training loop\<close>

lemma update_steps_append: "update_steps (xs @ ys) = update_steps xs @ update_steps ys"
  by (induction xs rule: update_steps.induct) simp_all

lemma checked_steps_append: "checked_steps (xs @ ys) = checked_steps xs @ checked_steps ys"
  by (induction xs rule: checked_steps.induct) simp_all

lemma emit_simps [simp]:
  "ls_trace (emit ev ls) = ls_trace ls @ [ev]"
  "ls_global_step (emit ev ls) = ls_global_step ls"
  "ls_state (emit ev ls) = ls_state ls"
  "ls_prev_eval_step (emit ev ls) = ls_prev_eval_step ls"
  "ls_sum_train_cost (emit ev ls) = ls_sum_train_cost ls"
  "ls_grad_norm (emit ev ls) = ls_grad_norm ls"
  "ls_lr (emit ev ls) = ls_lr ls"
  by (simp_all add: emit_def)

lemma finish_report_preemption_count:
  "finish_report tr pc ls lr rep = Inr rep' \<Longrightarrow> rep' ''preemption_count'' = Some (Count pc)"
  by (auto simp: finish_report_def Let_def split: if_splits option.splits)

lemma run_callbacks_keeps:
  "run_callbacks cbs st step rep = Inr rep' \<Longrightarrow> rep k = Some v \<Longrightarrow> rep' k = Some v"
proof (induction cbs arbitrary: rep)
  case Nil
  then show ?case by simp
next
  case (Cons cb cbs)
  let ?cm = "cb st step"
  from Cons.prems(1) have nc: "\<forall>k\<in>set (map fst ?cm). rep k = None"
    and run: "run_callbacks cbs st step (rep ++ map_of (rev ?cm)) = Inr rep'"
    by (auto simp: Let_def split: if_splits)
  from nc Cons.prems(2) have "k \<notin> fst ` set (rev ?cm)" by auto
  then have "map_of (rev ?cm) k = None" by (rule map_of_eq_None_iff [THEN iffD2])
  with Cons.prems(2) have "(rep ++ map_of (rev ?cm)) k = Some v" by (simp add: map_add_def)
  from Cons.IH [OF run this] show ?case .
qed

lemma yielded_report_preemption_count:
  assumes "finish_report tr pc ls lr rep = Inr r1" "run_callbacks cbs st step r1 = Inr r2"
  shows "r2 ''preemption_count'' = Some (Count pc)"
  by (rule run_callbacks_keeps [OF assms(2) finish_report_preemption_count [OF assms(1)]])

lemma trace_before_update_facts:
  "ls_global_step (trace_before_update tr pc ls) = ls_global_step ls"
  "update_steps (ls_trace (trace_before_update tr pc ls)) = update_steps (ls_trace ls) @ [ls_global_step ls]"
  "checked_steps (ls_trace (trace_before_update tr pc ls)) = checked_steps (ls_trace ls)"
  "\<forall>ev\<in>set (ls_trace ls). shows_preemption_count pc ev \<Longrightarrow>
     \<forall>ev\<in>set (ls_trace (trace_before_update tr pc ls)). shows_preemption_count pc ev"
  by (simp_all add: trace_before_update_def Let_def update_steps_append checked_steps_append)

lemma train_one_batch_facts:
  assumes "train_one_batch tr pc ls b = Inr (ls1, lr)"
  shows "ls_global_step ls1 = ls_global_step ls + 1"
    and "update_steps (ls_trace ls1) = update_steps (ls_trace ls) @ [ls_global_step ls]"
    and "checked_steps (ls_trace ls1) = checked_steps (ls_trace ls)"
    and "\<forall>ev\<in>set (ls_trace ls). shows_preemption_count pc ev \<Longrightarrow>
           \<forall>ev\<in>set (ls_trace ls1). shows_preemption_count pc ev"
  using assms
  by (auto simp: train_one_batch_def Let_def update_steps_append checked_steps_append
        split: sum.splits prod.splits if_splits)

lemma eval_and_yield_trace:
  assumes "eval_and_yield tr d pc ls lr = (out, ls')"
  shows "ls_trace ls' = ls_trace ls
     \<or> (\<exists>r0 r1 r2 ls0 st step.
           finish_report tr pc ls0 lr r0 = Inr r1
         \<and> run_callbacks (eval_callbacks tr) st step r1 = Inr r2
         \<and> (ls_trace ls' = ls_trace ls @ [Yield r2]
            \<or> ls_trace ls' = ls_trace ls @ [Yield r2, CheckpointSave (ls_global_step ls) pc]))"
proof (cases "eval_report tr d (sync_batchnorm_stats tr (ls_state ls))")
  case (Inl e)
  with assms show ?thesis by (auto simp: eval_and_yield_def Let_def)
next
  case r0: (Inr r0)
  let ?ls0 = "ls\<lparr>ls_state := sync_batchnorm_stats tr (ls_state ls)\<rparr>"
  show ?thesis
  proof (cases "finish_report tr pc ?ls0 lr r0")
    case (Inl e)
    with assms r0 show ?thesis by (auto simp: eval_and_yield_def Let_def)
  next
    case r1: (Inr r1)
    show ?thesis
    proof (cases "run_callbacks (eval_callbacks tr) (ls_state ?ls0) (ls_global_step ?ls0) r1")
      case (Inl e)
      with assms r0 r1 show ?thesis by (auto simp: eval_and_yield_def Let_def)
    next
      case r2: (Inr r2)
      from assms r0 r1 r2 have "ls_trace ls' = ls_trace ls @ [Yield r2]
            \<or> ls_trace ls' = ls_trace ls @ [Yield r2, CheckpointSave (ls_global_step ls) pc]"
        by (auto simp: eval_and_yield_def Let_def split: if_splits)
      with r1 r2 show ?thesis by blast
    qed
  qed
qed

lemma eval_and_yield_facts:
  assumes "eval_and_yield tr d pc ls lr = (out, ls')"
  shows "ls_global_step ls' = ls_global_step ls"
    and "update_steps (ls_trace ls') = update_steps (ls_trace ls)"
    and "checked_steps (ls_trace ls') = checked_steps (ls_trace ls)"
    and "out \<noteq> Some Exhausted"
  using assms
  by (auto simp: eval_and_yield_def Let_def update_steps_append checked_steps_append
        split: sum.splits if_splits)

lemma eval_and_yield_events:
  assumes e: "eval_and_yield tr d pc ls lr = (out, ls')"
    and p: "\<forall>ev\<in>set (ls_trace ls). shows_preemption_count pc ev"
  shows "\<forall>ev\<in>set (ls_trace ls'). shows_preemption_count pc ev"
proof -
  from eval_and_yield_trace [OF e] show ?thesis
  proof
    assume "ls_trace ls' = ls_trace ls"
    with p show ?thesis by simp
  next
    assume "\<exists>r0 r1 r2 ls0 st step.
           finish_report tr pc ls0 lr r0 = Inr r1
         \<and> run_callbacks (eval_callbacks tr) st step r1 = Inr r2
         \<and> (ls_trace ls' = ls_trace ls @ [Yield r2]
            \<or> ls_trace ls' = ls_trace ls @ [Yield r2, CheckpointSave (ls_global_step ls) pc])"
    then obtain r0 r1 r2 ls0 st step where
      f: "finish_report tr pc ls0 lr r0 = Inr r1"
      and c: "run_callbacks (eval_callbacks tr) st step r1 = Inr r2"
      and t: "ls_trace ls' = ls_trace ls @ [Yield r2]
            \<or> ls_trace ls' = ls_trace ls @ [Yield r2, CheckpointSave (ls_global_step ls) pc]"
      by blast
    from yielded_report_preemption_count [OF f c] have "shows_preemption_count pc (Yield r2)"
      by simp
    with t p show ?thesis by auto
  qed
qed

lemma loop_body_cases:
  assumes "loop_body tr d pc ls b = (out, ls')"
  shows "update_steps (ls_trace ls') = update_steps (ls_trace ls) @ [ls_global_step ls]"
    and "out \<noteq> Some Exhausted"
    and "(\<exists>e. out = Some (Raised e)) \<and> checked_steps (ls_trace ls') = checked_steps (ls_trace ls)
          \<and> ls_global_step ls' = ls_global_step ls
        \<or> checked_steps (ls_trace ls') = checked_steps (ls_trace ls) @ [ls_global_step ls + 1]
          \<and> ls_global_step ls' = ls_global_step ls + 1"
    and "\<forall>ev\<in>set (ls_trace ls). shows_preemption_count pc ev \<Longrightarrow>
           \<forall>ev\<in>set (ls_trace ls'). shows_preemption_count pc ev"
proof -
  show "update_steps (ls_trace ls') = update_steps (ls_trace ls) @ [ls_global_step ls]"
    and "out \<noteq> Some Exhausted"
    and "(\<exists>e. out = Some (Raised e)) \<and> checked_steps (ls_trace ls') = checked_steps (ls_trace ls)
          \<and> ls_global_step ls' = ls_global_step ls
        \<or> checked_steps (ls_trace ls') = checked_steps (ls_trace ls) @ [ls_global_step ls + 1]
          \<and> ls_global_step ls' = ls_global_step ls + 1"
  proof (atomize (full), cases "train_one_batch tr pc ls b")
    case (Inl e)
    with assms have "out = Some (Raised e)" "ls' = trace_before_update tr pc ls"
      by (simp_all add: loop_body_def)
    then show "(update_steps (ls_trace ls') = update_steps (ls_trace ls) @ [ls_global_step ls])
      \<and> out \<noteq> Some Exhausted
      \<and> ((\<exists>e. out = Some (Raised e)) \<and> checked_steps (ls_trace ls') = checked_steps (ls_trace ls)
          \<and> ls_global_step ls' = ls_global_step ls
        \<or> checked_steps (ls_trace ls') = checked_steps (ls_trace ls) @ [ls_global_step ls + 1]
          \<and> ls_global_step ls' = ls_global_step ls + 1)"
      by (simp add: trace_before_update_facts)
  next
    case (Inr p)
    obtain ls1 lr where p: "p = (ls1, lr)" by (cases p)
    note T = train_one_batch_facts [OF Inr [unfolded p]]
    let ?ls2 = "emit (EvalCheck (ls_global_step ls1)) ls1"
    show "(update_steps (ls_trace ls') = update_steps (ls_trace ls) @ [ls_global_step ls])
      \<and> out \<noteq> Some Exhausted
      \<and> ((\<exists>e. out = Some (Raised e)) \<and> checked_steps (ls_trace ls') = checked_steps (ls_trace ls)
          \<and> ls_global_step ls' = ls_global_step ls
        \<or> checked_steps (ls_trace ls') = checked_steps (ls_trace ls) @ [ls_global_step ls + 1]
          \<and> ls_global_step ls' = ls_global_step ls + 1)"
    proof (cases "should_eval tr (ls_global_step ls1)")
      case True
      with assms Inr p have e: "eval_and_yield tr d pc ?ls2 lr = (out, ls')"
        by (simp add: loop_body_def Let_def)
      from eval_and_yield_facts [OF e] T(1-3) show ?thesis
        by (simp add: update_steps_append checked_steps_append)
    next
      case False
      with assms Inr p have "out = None" "ls' = ?ls2"
        by (simp_all add: loop_body_def Let_def)
      with T(1-3) show ?thesis
        by (simp add: update_steps_append checked_steps_append)
    qed
  qed
  assume P: "\<forall>ev\<in>set (ls_trace ls). shows_preemption_count pc ev"
  show "\<forall>ev\<in>set (ls_trace ls'). shows_preemption_count pc ev"
  proof (cases "train_one_batch tr pc ls b")
    case (Inl e)
    with assms have "ls' = trace_before_update tr pc ls" by (simp add: loop_body_def)
    with trace_before_update_facts(4) [OF P] show ?thesis by simp
  next
    case (Inr p)
    obtain ls1 lr where p: "p = (ls1, lr)" by (cases p)
    note T = train_one_batch_facts(4) [OF Inr [unfolded p] P]
    let ?ls2 = "emit (EvalCheck (ls_global_step ls1)) ls1"
    from T have P2: "\<forall>ev\<in>set (ls_trace ?ls2). shows_preemption_count pc ev" by simp
    show ?thesis
    proof (cases "should_eval tr (ls_global_step ls1)")
      case True
      with assms Inr p have e: "eval_and_yield tr d pc ?ls2 lr = (out, ls')"
        by (simp add: loop_body_def Let_def)
      from eval_and_yield_events [OF e P2] show ?thesis .
    next
      case False
      with assms Inr p have "ls' = ?ls2" by (simp add: loop_body_def Let_def)
      with P2 show ?thesis by simp
    qed
  qed
qed

lemma loop_body_None:
  assumes "loop_body tr d pc ls b = (None, ls')"
  shows "update_steps (ls_trace ls') = update_steps (ls_trace ls) @ [ls_global_step ls]"
    and "checked_steps (ls_trace ls') = checked_steps (ls_trace ls) @ [ls_global_step ls + 1]"
    and "ls_global_step ls' = ls_global_step ls + 1"
  using loop_body_cases(1,3) [OF assms] by auto

lemma upt_step: "[g] @ [g + 1 ..< g + 1 + k] = [g ..< g + (k + 1)]"
  by (simp add: upt_conv_Cons)

lemma train_loop_trace:
  assumes "train_loop tr d pc ls bs = (out, ls')"
  shows "\<exists>k j. k \<le> length bs \<and> j \<le> k \<and> k \<le> j + 1
      \<and> update_steps (ls_trace ls') = update_steps (ls_trace ls) @ [ls_global_step ls ..< ls_global_step ls + k]
      \<and> checked_steps (ls_trace ls')
          = checked_steps (ls_trace ls) @ [ls_global_step ls + 1 ..< ls_global_step ls + 1 + j]
      \<and> ls_global_step ls' = ls_global_step ls + j
      \<and> (out = Exhausted \<longrightarrow> k = length bs \<and> j = k)
      \<and> (bs \<noteq> [] \<longrightarrow> 1 \<le> k)"
  using assms
proof (induction bs arbitrary: ls)
  case Nil
  then have "out = Exhausted" "ls' = ls" by simp_all
  then show ?case by (intro exI [of _ 0]) simp
next
  case (Cons b bs)
  obtain o1 ls1 where lb: "loop_body tr d pc ls b = (o1, ls1)" by (cases "loop_body tr d pc ls b")
  let ?g = "ls_global_step ls"
  show ?case
  proof (cases o1)
    case None
    with Cons.prems lb have run: "train_loop tr d pc ls1 bs = (out, ls')" by simp
    note B = loop_body_None [OF lb [unfolded None]]
    from Cons.IH [OF run] obtain k j where
      kj: "k \<le> length bs" "j \<le> k" "k \<le> j + 1"
      and u: "update_steps (ls_trace ls') = update_steps (ls_trace ls1) @ [ls_global_step ls1 ..< ls_global_step ls1 + k]"
      and c: "checked_steps (ls_trace ls')
          = checked_steps (ls_trace ls1) @ [ls_global_step ls1 + 1 ..< ls_global_step ls1 + 1 + j]"
      and g: "ls_global_step ls' = ls_global_step ls1 + j"
      and ex: "out = Exhausted \<longrightarrow> k = length bs \<and> j = k"
      by blast
    have u': "update_steps (ls_trace ls') = update_steps (ls_trace ls) @ [?g ..< ?g + (k + 1)]"
      using u B(1) B(3) upt_step [of ?g k] by simp
    have c': "checked_steps (ls_trace ls')
          = checked_steps (ls_trace ls) @ [?g + 1 ..< ?g + 1 + (j + 1)]"
      using c B(2) B(3) upt_step [of "?g + 1" j] by simp
    have g': "ls_global_step ls' = ?g + (j + 1)" using g B(3) by simp
    show ?thesis
      using kj u' c' g' ex
      by (intro exI [of _ "k + 1"] exI [of _ "j + 1"]) simp
  next
    case (Some o2)
    with Cons.prems lb have eq: "out = o2" "ls' = ls1" by simp_all
    from loop_body_cases(2) [OF lb] Some have ne: "o2 \<noteq> Exhausted" by auto
    from loop_body_cases(1) [OF lb] have
      u: "update_steps (ls_trace ls1) = update_steps (ls_trace ls) @ [?g]" .
    from loop_body_cases(3) [OF lb] have
      c: "checked_steps (ls_trace ls1) = checked_steps (ls_trace ls) \<and> ls_global_step ls1 = ?g
        \<or> checked_steps (ls_trace ls1) = checked_steps (ls_trace ls) @ [?g + 1] \<and> ls_global_step ls1 = ?g + 1"
      by auto
    from c show ?thesis
    proof
      assume "checked_steps (ls_trace ls1) = checked_steps (ls_trace ls) \<and> ls_global_step ls1 = ?g"
      with u eq ne show ?thesis
        by (intro exI [of _ 1] exI [of _ 0]) simp
    next
      assume "checked_steps (ls_trace ls1) = checked_steps (ls_trace ls) @ [?g + 1] \<and> ls_global_step ls1 = ?g + 1"
      with u eq ne show ?thesis
        by (intro exI [of _ 1] exI [of _ 1]) simp
    qed
  qed
qed

lemma train_loop_events:
  assumes "train_loop tr d pc ls bs = (out, ls')"
    and "\<forall>ev\<in>set (ls_trace ls). shows_preemption_count pc ev"
  shows "\<forall>ev\<in>set (ls_trace ls'). shows_preemption_count pc ev"
  using assms
proof (induction bs arbitrary: ls)
  case Nil
  then show ?case by simp
next
  case (Cons b bs)
  obtain o1 ls1 where lb: "loop_body tr d pc ls b = (o1, ls1)" by (cases "loop_body tr d pc ls b")
  note B = loop_body_cases(4) [OF lb Cons.prems(2)]
  show ?case
  proof (cases o1)
    case None
    with Cons.prems lb have "train_loop tr d pc ls1 bs = (out, ls')" by simp
    from Cons.IH [OF this B] show ?thesis .
  next
    case (Some o2)
    with Cons.prems lb have "ls' = ls1" by simp
    with B show ?thesis by simp
  qed
qed

lemma final_report_facts:
  assumes "final_report tr d pc n ls = (out, ls')"
  shows "update_steps (ls_trace ls') = update_steps (ls_trace ls)"
    and "checked_steps (ls_trace ls') = checked_steps (ls_trace ls)"
  using assms
  by (auto simp: final_report_def Let_def update_steps_append checked_steps_append
        split: sum.splits if_splits)

lemma final_report_trace:
  assumes "final_report tr d pc n ls = (out, ls')"
  shows "set (ls_trace ls') \<subseteq> set (ls_trace ls) \<union> {WaitForCheckpointSave}
     \<or> (\<exists>r0 r1 ls0 lr. finish_report tr pc ls0 lr r0 = Inr r1
           \<and> set (ls_trace ls') \<subseteq> set (ls_trace ls)
                 \<union> {Yield r1, CheckpointSave (ls_global_step ls) pc, WaitForCheckpointSave})"
proof (cases "ls_prev_eval_step ls \<noteq> n")
  case False
  with assms show ?thesis by (auto simp: final_report_def)
next
  case True
  let ?ls0 = "ls\<lparr>ls_state := sync_batchnorm_stats tr (ls_state ls)\<rparr>"
  show ?thesis
  proof (cases "eval_report tr d (ls_state ?ls0)")
    case (Inl e)
    with assms True show ?thesis by (auto simp: final_report_def Let_def)
  next
    case r0: (Inr r0)
    let ?lr = "lr_fn tr (ls_global_step ?ls0)"
    let ?ls1 = "?ls0\<lparr>ls_lr := Some ?lr\<rparr>"
    show ?thesis
    proof (cases "finish_report tr pc ?ls1 ?lr r0")
      case (Inl e)
      with assms True r0 show ?thesis by (auto simp: final_report_def Let_def)
    next
      case r1: (Inr r1)
      from assms True r0 r1 have "set (ls_trace ls') \<subseteq> set (ls_trace ls)
                 \<union> {Yield r1, CheckpointSave (ls_global_step ls) pc, WaitForCheckpointSave}"
        by (auto simp: final_report_def Let_def split: if_splits)
      with r1 show ?thesis by blast
    qed
  qed
qed

lemma final_report_events:
  assumes f: "final_report tr d pc n ls = (out, ls')"
    and p: "\<forall>ev\<in>set (ls_trace ls). shows_preemption_count pc ev"
  shows "\<forall>ev\<in>set (ls_trace ls'). shows_preemption_count pc ev"
proof -
  from final_report_trace [OF f] show ?thesis
  proof
    assume "set (ls_trace ls') \<subseteq> set (ls_trace ls) \<union> {WaitForCheckpointSave}"
    with p show ?thesis by auto
  next
    assume "\<exists>r0 r1 ls0 lr. finish_report tr pc ls0 lr r0 = Inr r1
           \<and> set (ls_trace ls') \<subseteq> set (ls_trace ls)
                 \<union> {Yield r1, CheckpointSave (ls_global_step ls) pc, WaitForCheckpointSave}"
    then obtain r0 r1 ls0 lr where fr: "finish_report tr pc ls0 lr r0 = Inr r1"
      and s: "set (ls_trace ls') \<subseteq> set (ls_trace ls)
                 \<union> {Yield r1, CheckpointSave (ls_global_step ls) pc, WaitForCheckpointSave}"
      by blast
    from finish_report_preemption_count [OF fr] have "shows_preemption_count pc (Yield r1)" by simp
    with s p show ?thesis by auto
  qed
qed

lemma finish_report_should_eval [simp]:
  "finish_report (tr\<lparr>should_eval := g\<rparr>) pc ls lr rep = finish_report tr pc ls lr rep"
  by (simp add: finish_report_def split: option.splits)

lemma final_report_should_eval [simp]:
  "final_report (tr\<lparr>should_eval := g\<rparr>) d pc n ls = final_report tr d pc n ls"
  by (simp add: final_report_def Let_def split: sum.splits)

lemma train_one_batch_should_eval [simp]:
  "train_one_batch (tr\<lparr>should_eval := g\<rparr>) pc ls b = train_one_batch tr pc ls b"
  by (simp add: train_one_batch_def Let_def split: sum.splits option.splits)

lemma trace_before_update_should_eval [simp]:
  "trace_before_update (tr\<lparr>should_eval := g\<rparr>) pc ls = trace_before_update tr pc ls"
  by (simp add: trace_before_update_def Let_def split: option.splits)

lemma eval_and_yield_should_eval [simp]:
  "eval_and_yield (tr\<lparr>should_eval := g\<rparr>) d pc ls lr = eval_and_yield tr d pc ls lr"
  by (simp add: eval_and_yield_def Let_def split: sum.splits)

lemma loop_body_should_eval:
  assumes "g (ls_global_step ls + 1) = should_eval tr (ls_global_step ls + 1)"
  shows "loop_body (tr\<lparr>should_eval := g\<rparr>) d pc ls b = loop_body tr d pc ls b"
proof (cases "train_one_batch tr pc ls b")
  case (Inl e)
  then show ?thesis by (simp add: loop_body_def)
next
  case (Inr p)
  obtain ls1 lr where p: "p = (ls1, lr)" by (cases p)
  from train_one_batch_facts(1) [OF Inr [unfolded p]] assms
  have "g (ls_global_step ls1) = should_eval tr (ls_global_step ls1)" by simp
  with Inr p show ?thesis by (simp add: loop_body_def Let_def)
qed

lemma train_loop_should_eval:
  assumes "\<forall>c. ls_global_step ls + 1 \<le> c \<longrightarrow> g c = should_eval tr c"
  shows "train_loop (tr\<lparr>should_eval := g\<rparr>) d pc ls bs = train_loop tr d pc ls bs"
  using assms
proof (induction bs arbitrary: ls)
  case Nil
  show ?case by simp
next
  case (Cons b bs)
  from Cons.prems have "g (ls_global_step ls + 1) = should_eval tr (ls_global_step ls + 1)" by simp
  then have lb: "loop_body (tr\<lparr>should_eval := g\<rparr>) d pc ls b = loop_body tr d pc ls b"
    by (rule loop_body_should_eval)
  obtain o1 ls1 where r: "loop_body tr d pc ls b = (o1, ls1)" by (cases "loop_body tr d pc ls b")
  show ?case
  proof (cases o1)
    case None
    from loop_body_None(3) [OF r [unfolded None]] Cons.prems
    have "\<forall>c. ls_global_step ls1 + 1 \<le> c \<longrightarrow> g c = should_eval tr c" by simp
    from Cons.IH [OF this] lb r None show ?thesis by simp
  next
    case (Some o2)
    with lb r show ?thesis by simp
  qed
qed

lemma train_unfold:
  "train tr fold_in db tif n data_rng rs =
     (after_restore fold_in data_rng rs,
      (case train_loop tr (db (snd (after_restore fold_in data_rng rs)))
              (fst (after_restore fold_in data_rng rs))
              \<lparr> ls_state = r_state rs, ls_global_step = r_global_step rs,
                ls_sum_train_cost = r_sum_train_cost rs, ls_prev_eval_step = r_global_step rs,
                ls_lr = None, ls_grad_norm = None, ls_trace = [] \<rparr>
              (islice (tif (db (snd (after_restore fold_in data_rng rs)))) (r_global_step rs) n) of
         (Exhausted, ls) \<Rightarrow>
           final_report tr (db (snd (after_restore fold_in data_rng rs)))
             (fst (after_restore fold_in data_rng rs)) n ls
       | (out, ls) \<Rightarrow> (out, ls)))"
  by (cases "after_restore fold_in data_rng rs")
    (simp add: train_def Let_def split: prod.splits outcome.splits)

lemma train_facts:
  assumes t: "train tr fold_in db tif n data_rng rs = (pk, out, ls')"
  shows "pk = after_restore fold_in data_rng rs"
    and "\<exists>k j. k \<le> n - r_global_step rs \<and> j \<le> k \<and> k \<le> j + 1
      \<and> update_steps (ls_trace ls') = [r_global_step rs ..< r_global_step rs + k]
      \<and> checked_steps (ls_trace ls') = [r_global_step rs + 1 ..< r_global_step rs + 1 + j]
      \<and> (out = Exhausted \<longrightarrow> k = n - r_global_step rs \<and> j = k)
      \<and> (r_global_step rs < n \<longrightarrow> 1 \<le> k)"
    and "\<forall>ev\<in>set (ls_trace ls'). shows_preemption_count (fst pk) ev"
proof -
  let ?pk = "after_restore fold_in data_rng rs"
  let ?d = "db (snd ?pk)"
  let ?ls = "\<lparr> ls_state = r_state rs, ls_global_step = r_global_step rs,
                 ls_sum_train_cost = r_sum_train_cost rs, ls_prev_eval_step = r_global_step rs,
                 ls_lr = None, ls_grad_norm = None, ls_trace = [] \<rparr>"
  let ?bs = "islice (tif ?d) (r_global_step rs) n"
  from t show pk: "pk = ?pk" by (simp add: train_unfold)
  obtain o1 ls1 where tl: "train_loop tr ?d (fst ?pk) ?ls ?bs = (o1, ls1)"
    by (cases "train_loop tr ?d (fst ?pk) ?ls ?bs")
  have len: "length ?bs = n - r_global_step rs" by (simp add: islice_def)
  have ne: "?bs \<noteq> [] \<longleftrightarrow> r_global_step rs < n" by (auto simp: islice_def)
  from train_loop_trace [OF tl] obtain k j where
    kj: "k \<le> length ?bs" "j \<le> k" "k \<le> j + 1"
    and u: "update_steps (ls_trace ls1) = [r_global_step rs ..< r_global_step rs + k]"
    and c: "checked_steps (ls_trace ls1) = [r_global_step rs + 1 ..< r_global_step rs + 1 + j]"
    and ex: "o1 = Exhausted \<longrightarrow> k = length ?bs \<and> j = k"
    and k1: "?bs \<noteq> [] \<longrightarrow> 1 \<le> k"
    by auto
  have ev1: "\<forall>ev\<in>set (ls_trace ls1). shows_preemption_count (fst ?pk) ev"
    by (rule train_loop_events [OF tl]) simp
  show "\<exists>k j. k \<le> n - r_global_step rs \<and> j \<le> k \<and> k \<le> j + 1
      \<and> update_steps (ls_trace ls') = [r_global_step rs ..< r_global_step rs + k]
      \<and> checked_steps (ls_trace ls') = [r_global_step rs + 1 ..< r_global_step rs + 1 + j]
      \<and> (out = Exhausted \<longrightarrow> k = n - r_global_step rs \<and> j = k)
      \<and> (r_global_step rs < n \<longrightarrow> 1 \<le> k)"
  proof (cases "o1 = Exhausted")
    case True
    with t tl have fr: "final_report tr ?d (fst ?pk) n ls1 = (out, ls')"
      by (auto simp: train_unfold)
    from final_report_facts [OF fr] u c kj ex True len k1 ne show ?thesis
      by (intro exI [of _ k] exI [of _ j]) simp
  next
    case False
    with t tl have "out = o1" "ls' = ls1"
      by (cases o1; auto simp: train_unfold)+
    with u c kj ex False len k1 ne show ?thesis
      by (intro exI [of _ k] exI [of _ j]) simp
  qed
  show "\<forall>ev\<in>set (ls_trace ls'). shows_preemption_count (fst pk) ev"
  proof (cases "o1 = Exhausted")
    case True
    with t tl have fr: "final_report tr ?d (fst ?pk) n ls1 = (out, ls')"
      by (auto simp: train_unfold)
    from final_report_events [OF fr ev1] pk show ?thesis by simp
  next
    case False
    with t tl have "ls' = ls1"
      by (cases o1; auto simp: train_unfold)
    with ev1 pk show ?thesis by simp
  qed
qed

lemma train_should_eval:
  assumes "\<forall>c. r_global_step rs + 1 \<le> c \<longrightarrow> g c = should_eval tr c"
  shows "train (tr\<lparr>should_eval := g\<rparr>) fold_in db tif n data_rng rs
     = train tr fold_in db tif n data_rng rs"
proof -
  have "train_loop (tr\<lparr>should_eval := g\<rparr>) d pc
          \<lparr> ls_state = r_state rs, ls_global_step = r_global_step rs,
            ls_sum_train_cost = r_sum_train_cost rs, ls_prev_eval_step = r_global_step rs,
            ls_lr = None, ls_grad_norm = None, ls_trace = [] \<rparr> bs
      = train_loop tr d pc
          \<lparr> ls_state = r_state rs, ls_global_step = r_global_step rs,
            ls_sum_train_cost = r_sum_train_cost rs, ls_prev_eval_step = r_global_step rs,
            ls_lr = None, ls_grad_norm = None, ls_trace = [] \<rparr> bs" for d pc bs
    using assms by (intro train_loop_should_eval) simp
  then show ?thesis by (simp add: train_unfold split: prod.splits outcome.splits)
qed

lemma loop_body_check:
  "loop_body tr d pc ls b =
     (case train_one_batch tr pc ls b of
        Inl e \<Rightarrow> (Some (Raised e), trace_before_update tr pc ls)
      | Inr (ls1, lr) \<Rightarrow>
          if should_eval tr (ls_global_step ls + 1)
          then eval_and_yield tr d pc (emit (EvalCheck (ls_global_step ls + 1)) ls1) lr
          else (None, emit (EvalCheck (ls_global_step ls + 1)) ls1))"
proof (cases "train_one_batch tr pc ls b")
  case (Inl e)
  then show ?thesis by (simp add: loop_body_def)
next
  case (Inr p)
  obtain ls1 lr where p: "p = (ls1, lr)" by (cases p)
  from train_one_batch_facts(1) [OF Inr [unfolded p]] Inr p show ?thesis
    by (simp add: loop_body_def Let_def)
qed

lemma example_run_steps:
  "fst (example_run True) = (1, 2)"
  "fst (example_run False) = (0, 0)"
  "fst (snd (example_run True)) = Exhausted"
  "update_steps (ls_trace (snd (snd (example_run True)))) = [1, 2]"
  "checked_steps (ls_trace (snd (snd (example_run True)))) = [2, 3]"
  by (simp_all add: example_run_def example_trainer_def train_def after_restore_def islice_def
        upt_conv_Cons loop_body_def train_one_batch_def eval_and_yield_def Let_def emit_def
        finish_report_def final_report_def)

text \<open>
  C10. In every run of \<open>train\<close>, the body of the loop asks \<open>should_eval\<close> about the
  global step of the batch plus one, the value the global step has after its increment
  (an update that raises ends the loop before), and evaluates exactly when the answer is
  yes. So from a start at step \<open>S\<close> the steps handed to \<open>should_eval\<close> are
  \<open>S + 1, S + 2, ...\<close> in order, one after each update that returned; each of them is
  at least \<open>S + 1\<close> and none is \<open>0\<close>. The run depends on \<open>should_eval\<close> only at steps
  from \<open>S + 1\<close> on; in particular, when \<open>should_eval\<close> is membership in a list of
  evaluation steps, the run is the same with every \<open>0\<close> removed from the list.
\<close>

theorem eval_check_after_increment:
  assumes t: "train tr fold_in db tif n data_rng rs = (pk, out, ls')"
  shows
    "(\<forall>d pc ls b.
        loop_body tr d pc ls b =
          (case train_one_batch tr pc ls b of
             Inl e \<Rightarrow> (Some (Raised e), trace_before_update tr pc ls)
           | Inr (ls1, lr) \<Rightarrow>
               if should_eval tr (ls_global_step ls + 1)
               then eval_and_yield tr d pc (emit (EvalCheck (ls_global_step ls + 1)) ls1) lr
               else (None, emit (EvalCheck (ls_global_step ls + 1)) ls1)))
     \<and> (\<forall>pc ls b ls1 lr. train_one_batch tr pc ls b = Inr (ls1, lr) \<longrightarrow>
           ls_global_step ls1 = ls_global_step ls + 1)
     \<and> (\<exists>k j. k \<le> n - r_global_step rs \<and> j \<le> k \<and> k \<le> j + 1
           \<and> update_steps (ls_trace ls') = [r_global_step rs ..< r_global_step rs + k]
           \<and> checked_steps (ls_trace ls') = [r_global_step rs + 1 ..< r_global_step rs + 1 + j]
           \<and> (out = Exhausted \<longrightarrow> k = n - r_global_step rs \<and> j = k))
     \<and> (\<forall>c\<in>set (checked_steps (ls_trace ls')). r_global_step rs + 1 \<le> c \<and> c \<noteq> 0)
     \<and> (\<forall>g. (\<forall>c. r_global_step rs + 1 \<le> c \<longrightarrow> g c = should_eval tr c) \<longrightarrow>
           train (tr\<lparr>should_eval := g\<rparr>) fold_in db tif n data_rng rs
           = train tr fold_in db tif n data_rng rs)
     \<and> (\<forall>eval_steps. should_eval tr = (\<lambda>step. step \<in> set eval_steps) \<longrightarrow>
           train (tr\<lparr>should_eval := (\<lambda>step. step \<in> set (removeAll 0 eval_steps))\<rparr>)
             fold_in db tif n data_rng rs
           = train tr fold_in db tif n data_rng rs)"
proof (intro conjI)
  show "\<forall>d pc ls b.
        loop_body tr d pc ls b =
          (case train_one_batch tr pc ls b of
             Inl e \<Rightarrow> (Some (Raised e), trace_before_update tr pc ls)
           | Inr (ls1, lr) \<Rightarrow>
               if should_eval tr (ls_global_step ls + 1)
               then eval_and_yield tr d pc (emit (EvalCheck (ls_global_step ls + 1)) ls1) lr
               else (None, emit (EvalCheck (ls_global_step ls + 1)) ls1))"
    by (intro allI) (rule loop_body_check)
next
  show "\<forall>pc ls b ls1 lr. train_one_batch tr pc ls b = Inr (ls1, lr) \<longrightarrow>
           ls_global_step ls1 = ls_global_step ls + 1"
    by (intro allI impI) (rule train_one_batch_facts(1))
next
  from train_facts(2) [OF t] obtain k j where
    kj: "k \<le> n - r_global_step rs" "j \<le> k" "k \<le> j + 1"
    and u: "update_steps (ls_trace ls') = [r_global_step rs ..< r_global_step rs + k]"
    and c: "checked_steps (ls_trace ls') = [r_global_step rs + 1 ..< r_global_step rs + 1 + j]"
    and ex: "out = Exhausted \<longrightarrow> k = n - r_global_step rs \<and> j = k"
    by blast
  then show "\<exists>k j. k \<le> n - r_global_step rs \<and> j \<le> k \<and> k \<le> j + 1
           \<and> update_steps (ls_trace ls') = [r_global_step rs ..< r_global_step rs + k]
           \<and> checked_steps (ls_trace ls') = [r_global_step rs + 1 ..< r_global_step rs + 1 + j]
           \<and> (out = Exhausted \<longrightarrow> k = n - r_global_step rs \<and> j = k)"
    by blast
  from c show "\<forall>c\<in>set (checked_steps (ls_trace ls')). r_global_step rs + 1 \<le> c \<and> c \<noteq> 0"
    by auto
next
  show "\<forall>g. (\<forall>c. r_global_step rs + 1 \<le> c \<longrightarrow> g c = should_eval tr c) \<longrightarrow>
           train (tr\<lparr>should_eval := g\<rparr>) fold_in db tif n data_rng rs
           = train tr fold_in db tif n data_rng rs"
    by (intro allI impI) (rule train_should_eval)
next
  show "\<forall>eval_steps. should_eval tr = (\<lambda>step. step \<in> set eval_steps) \<longrightarrow>
           train (tr\<lparr>should_eval := (\<lambda>step. step \<in> set (removeAll 0 eval_steps))\<rparr>)
             fold_in db tif n data_rng rs
           = train tr fold_in db tif n data_rng rs"
  proof (intro allI impI)
    fix eval_steps assume e: "should_eval tr = (\<lambda>step. step \<in> set eval_steps)"
    have "\<forall>c. r_global_step rs + 1 \<le> c \<longrightarrow>
        (c \<in> set (removeAll 0 eval_steps)) = should_eval tr c"
      unfolding e by auto
    then show "train (tr\<lparr>should_eval := (\<lambda>step. step \<in> set (removeAll 0 eval_steps))\<rparr>)
             fold_in db tif n data_rng rs
           = train tr fold_in db tif n data_rng rs"
      by (rule train_should_eval)
  qed
qed

theorem eval_check_after_increment_witness:
  "example_run True
     = (fst (example_run True), fst (snd (example_run True)), snd (snd (example_run True)))
   \<and> checked_steps (ls_trace (snd (snd (example_run True)))) = [2, 3]
   \<and> (1::nat) + 1 \<le> 2 \<and> (2::nat) \<noteq> 0
   \<and> should_eval example_trainer = (\<lambda>step. step \<in> set [0, 2])
   \<and> train (example_trainer\<lparr>should_eval := (\<lambda>step. step \<in> set (removeAll 0 [0, 2]))\<rparr>)
         (\<lambda>k n. k + n + 1) (\<lambda>k. k) (\<lambda>d i. i) 3 0
         \<lparr> r_state = 0, r_global_step = 1, r_sum_train_cost = 0, r_preemption_count = 0,
           r_is_restored = True \<rparr>
       = example_run True"
proof -
  have h: "example_run True
     = (fst (example_run True), fst (snd (example_run True)), snd (snd (example_run True)))"
    by simp
  note T = eval_check_after_increment [OF h [unfolded example_run_def], folded example_run_def]
  have c: "checked_steps (ls_trace (snd (snd (example_run True)))) = [2, 3]"
    by (rule example_run_steps(5))
  then have m: "(2::nat) \<in> set (checked_steps (ls_trace (snd (snd (example_run True)))))" by simp
  from T [THEN conjunct2, THEN conjunct2, THEN conjunct2, THEN conjunct1, rule_format, OF m]
  have b: "(1::nat) + 1 \<le> 2 \<and> (2::nat) \<noteq> 0" by simp
  have s: "should_eval example_trainer = (\<lambda>step. step \<in> set [0, 2])"
    by (simp add: example_trainer_def)
  note E = T [THEN conjunct2, THEN conjunct2, THEN conjunct2, THEN conjunct2, THEN conjunct2,
      rule_format, OF s]
  show ?thesis
    by (intro conjI h c b [THEN conjunct1] b [THEN conjunct2] s E)
qed



end
